theory Spec2Isabelle
  imports Main
begin

section \<open>Board model (types.ts)\<close>

datatype Team = R | B

datatype PieceType = Cha | Ma | Sang | Po | Sa | Jang | Jol

datatype Piece = Piece (team: Team) (type: PieceType)

text \<open>A board is an array of rows; a cell is \<open>null\<close> or a piece. \<open>null\<close> and
  \<open>undefined\<close> are both falsy and the code only tests truthiness, so both are \<open>None\<close>.\<close>

type_synonym Board = "Piece option list list"

datatype error = TypeError

text \<open>The outcome of a computation that can throw or loop: \<open>None\<close> is a loop that never
  ends, \<open>Some (Inl e)\<close> an uncaught exception, \<open>Some (Inr v)\<close> a returned value.\<close>

type_synonym 'a outcome = "(error + 'a) option"

definition bindR :: "'a outcome \<Rightarrow> ('a \<Rightarrow> 'b outcome) \<Rightarrow> 'b outcome" where
  "bindR m f = (case m of None \<Rightarrow> None | Some (Inl e) \<Rightarrow> Some (Inl e) | Some (Inr x) \<Rightarrow> f x)"

text \<open>\<open>board[r][c]\<close>: a row index outside the array gives \<open>undefined\<close>, whose indexing
  throws a TypeError; a column index outside the row gives \<open>undefined\<close>.\<close>

definition cell :: "Board \<Rightarrow> int \<Rightarrow> int \<Rightarrow> error + Piece option" where
  "cell board r c =
     (if 0 \<le> r \<and> r < int (length board)
      then (let row = board ! nat r
            in Inr (if 0 \<le> c \<and> c < int (length row) then row ! nat c else None))
      else Inl TypeError)"

section \<open>Movement logic (janggiLogic.ts)\<close>

text \<open>The \<open>while\<close> loop of \<open>countObstacles\<close>, entered with \<open>r = sy + dy\<close>, \<open>c = sx + dx\<close>.
  It ends only if the walk reaches the end square.\<close>

partial_function (option) countLoop ::
  "Board \<Rightarrow> int \<Rightarrow> int \<Rightarrow> int \<Rightarrow> int \<Rightarrow> int \<Rightarrow> int \<Rightarrow> nat \<Rightarrow> (error + nat) option" where
  "countLoop board dy dx ey ex r c count =
     (if r \<noteq> ey \<or> c \<noteq> ex
      then (case cell board r c of
              Inl e \<Rightarrow> Some (Inl e)
            | Inr p \<Rightarrow> countLoop board dy dx ey ex (r + dy) (c + dx)
                        (if p \<noteq> None then count + 1 else count))
      else Some (Inr count))"

declare countLoop.simps [code]

definition countObstacles :: "Board \<Rightarrow> int \<times> int \<Rightarrow> int \<times> int \<Rightarrow> nat outcome" where
  "countObstacles board start end' =
     (case start of (sy, sx) \<Rightarrow> (case end' of (ey, ex) \<Rightarrow>
        (let dy = sgn (ey - sy); dx = sgn (ex - sx)
         in countLoop board dy dx ey ex (sy + dy) (sx + dx) 0)))"

definition hasObstacle :: "Board \<Rightarrow> int \<times> int \<Rightarrow> int \<times> int \<Rightarrow> bool outcome" where
  "hasObstacle board start end' =
     bindR (countObstacles board start end') (\<lambda>n. Some (Inr (n > 0)))"

definition inPalace :: "int \<Rightarrow> int \<Rightarrow> Team \<Rightarrow> bool" where
  "inPalace r c tm =
     (if c < 3 \<or> c > 5 then False
      else if tm = B then r \<ge> 0 \<and> r \<le> 2
      else if tm = R then r \<ge> 7 \<and> r \<le> 9
      else False)"

text \<open>A cell read whose value is only tested for being empty (\<open>!board[r][c]\<close>).\<close>

definition isEmpty :: "Board \<Rightarrow> int \<Rightarrow> int \<Rightarrow> bool outcome" where
  "isEmpty board r c = (case cell board r c of Inl e \<Rightarrow> Some (Inl e) | Inr p \<Rightarrow> Some (Inr (p = None)))"

text \<open>The \<open>switch\<close> of \<open>isValidMove\<close> on the kind of the moving piece. The divisions
  \<open>dy / 2\<close>, \<open>dy / 3\<close>, \<open>dx / 2\<close>, \<open>dx / 3\<close> are exact under the guards in front of them.\<close>

definition pieceRule ::
  "Board \<Rightarrow> int \<times> int \<Rightarrow> int \<times> int \<Rightarrow> Piece \<Rightarrow> Piece option \<Rightarrow> bool outcome" where
  "pieceRule board start end' piece target =
     (case start of (sy, sx) \<Rightarrow> (case end' of (ey, ex) \<Rightarrow>
      (let dy = ey - sy; dx = ex - sx; absDy = \<bar>dy\<bar>; absDx = \<bar>dx\<bar> in
       (case type piece of
         Cha \<Rightarrow>
           bindR (if sx = ex \<or> sy = ey
                  then bindR (hasObstacle board start end') (\<lambda>h. Some (Inr (\<not> h)))
                  else Some (Inr False))
             (\<lambda>line. if line then Some (Inr True)
                else if inPalace sy sx (team piece) \<and> inPalace ey ex (team piece) \<and> absDx = absDy
                     then bindR (hasObstacle board start end') (\<lambda>h. Some (Inr (\<not> h)))
                     else Some (Inr False))
       | Jol \<Rightarrow>
           (if absDx + absDy > 1
            then (if inPalace sy sx (team piece) \<and> inPalace ey ex (team piece)
                     \<and> absDx = 1 \<and> absDy = 1
                  then (if team piece = B \<and> dy > 0 then Some (Inr True)
                        else if team piece = R \<and> dy < 0 then Some (Inr True)
                        else Some (Inr False))
                  else Some (Inr False))
            else if team piece = B \<and> dy < 0 then Some (Inr False)
            else if team piece = R \<and> dy > 0 then Some (Inr False)
            else Some (Inr True))
       | Ma \<Rightarrow>
           (if absDx = 1 \<and> absDy = 2 then isEmpty board (sy + dy div 2) sx
            else if absDx = 2 \<and> absDy = 1 then isEmpty board sy (sx + dx div 2)
            else Some (Inr False))
       | Sang \<Rightarrow>
           (if absDx = 2 \<and> absDy = 3
            then bindR (isEmpty board (sy + dy div 3) sx)
                   (\<lambda>e1. if e1 then isEmpty board (sy + (dy div 3) * 2) (sx + dx div 2)
                         else Some (Inr False))
            else if absDx = 3 \<and> absDy = 2
            then bindR (isEmpty board sy (sx + dx div 3))
                   (\<lambda>e1. if e1 then isEmpty board (sy + dy div 2) (sx + (dx div 3) * 2)
                         else Some (Inr False))
            else Some (Inr False))
       | Sa \<Rightarrow>
           (if \<not> inPalace ey ex (team piece) then Some (Inr False)
            else if absDx + absDy = 1 then Some (Inr True)
            else if absDx = 1 \<and> absDy = 1
            then (let isCenterStart = (sy = 1 \<and> sx = 4) \<or> (sy = 8 \<and> sx = 4);
                      isCenterEnd = (ey = 1 \<and> ex = 4) \<or> (ey = 8 \<and> ex = 4)
                  in Some (Inr (isCenterStart \<or> isCenterEnd)))
            else Some (Inr False))
       | Jang \<Rightarrow>
           (if \<not> inPalace ey ex (team piece) then Some (Inr False)
            else if absDx + absDy = 1 then Some (Inr True)
            else if absDx = 1 \<and> absDy = 1
            then (let isCenterStart = (sy = 1 \<and> sx = 4) \<or> (sy = 8 \<and> sx = 4);
                      isCenterEnd = (ey = 1 \<and> ex = 4) \<or> (ey = 8 \<and> ex = 4)
                  in Some (Inr (isCenterStart \<or> isCenterEnd)))
            else Some (Inr False))
       | Po \<Rightarrow>
           (if (case target of Some t \<Rightarrow> type t = Po | None \<Rightarrow> False) then Some (Inr False)
            else if sx = ex \<or> sy = ey
            then bindR (countObstacles board start end') (\<lambda>n. Some (Inr (n = 1)))
            else if inPalace sy sx (team piece) \<and> inPalace ey ex (team piece) \<and> absDx = absDy
            then bindR (countObstacles board start end') (\<lambda>n. Some (Inr (n = 1)))
            else Some (Inr False))))))"

definition isValidMove :: "Board \<Rightarrow> int \<times> int \<Rightarrow> int \<times> int \<Rightarrow> Team \<Rightarrow> bool outcome" where
  "isValidMove board start end' turn =
     (case start of (sy, sx) \<Rightarrow> (case end' of (ey, ex) \<Rightarrow>
        (if sy = ey \<and> sx = ex then Some (Inr False)
         else (case cell board sy sx of
                 Inl e \<Rightarrow> Some (Inl e)
               | Inr None \<Rightarrow> Some (Inr False)
               | Inr (Some piece) \<Rightarrow>
                   (if team piece \<noteq> turn then Some (Inr False)
                    else (case cell board ey ex of
                            Inl e \<Rightarrow> Some (Inl e)
                          | Inr target \<Rightarrow>
                              (if (case target of Some t \<Rightarrow> team t = team piece | None \<Rightarrow> False)
                               then Some (Inr False)
                               else pieceRule board start end' piece target)))))))"


text \<open>The pieces the spec calls "strictly between source and destination": the cells
  reached from the source by \<open>1 \<dots> n - 1\<close> unit steps toward the destination, where
  \<open>n\<close> is the larger of the two displacements. This definition follows the spec's words
  and is compared with \<open>countObstacles\<close> below.\<close>

definition occupied :: "Board \<Rightarrow> int \<times> int \<Rightarrow> bool" where
  "occupied board p = (case cell board (fst p) (snd p) of Inr (Some x) \<Rightarrow> True | _ \<Rightarrow> False)"

definition strictlyBetween :: "int \<times> int \<Rightarrow> int \<times> int \<Rightarrow> (int \<times> int) list" where
  "strictlyBetween start end' =
     (case start of (sy, sx) \<Rightarrow> (case end' of (ey, ex) \<Rightarrow>
        map (\<lambda>k. (sy + int k * sgn (ey - sy), sx + int k * sgn (ex - sx)))
            [1..<nat (max \<bar>ey - sy\<bar> \<bar>ex - sx\<bar>)]))"

definition piecesBetween :: "Board \<Rightarrow> int \<times> int \<Rightarrow> int \<times> int \<Rightarrow> nat" where
  "piecesBetween board start end' = length (filter (occupied board) (strictlyBetween start end'))"

section \<open>Board construction and position line (janggiLogic.ts)\<close>

datatype SetupType = Wan | Oreun | An | Bak

text \<open>A write \<open>board[r][c] = p(...)\<close> of \<open>initBoard\<close>; every such write is inside the
  10 by 9 array that \<open>initBoard\<close> has just created.\<close>

definition place :: "Board \<Rightarrow> nat \<Rightarrow> nat \<Rightarrow> Piece \<Rightarrow> Board" where
  "place board r c pc = board[r := (board ! r)[c := Some pc]]"

definition innerOf :: "SetupType \<Rightarrow> PieceType list" where
  "innerOf setup = (case setup of
       Wan \<Rightarrow> [Ma, Sang, Ma, Sang]
     | Oreun \<Rightarrow> [Sang, Ma, Sang, Ma]
     | An \<Rightarrow> [Ma, Sang, Sang, Ma]
     | Bak \<Rightarrow> [Sang, Ma, Ma, Sang])"

definition setupHomeRank :: "Board \<Rightarrow> nat \<Rightarrow> Team \<Rightarrow> SetupType \<Rightarrow> Board" where
  "setupHomeRank board row tm setup =
     (let b1 = place board row 0 (Piece tm Cha);
          b2 = place b1 row 8 (Piece tm Cha);
          inner = innerOf setup;
          b3 = place b2 row 1 (Piece tm (inner ! 0));
          b4 = place b3 row 2 (Piece tm (inner ! 1));
          b5 = place b4 row 6 (Piece tm (inner ! 2))
      in place b5 row 7 (Piece tm (inner ! 3)))"

definition initBoard :: "SetupType \<Rightarrow> SetupType \<Rightarrow> Board" where
  "initBoard redSetup blueSetup =
     (let b0 = replicate 10 (replicate 9 None);
          b1 = fold (\<lambda>c b. place (place b 3 c (Piece B Jol)) 6 c (Piece R Jol)) [0, 2, 4, 6, 8] b0;
          b2 = place (place b1 2 1 (Piece B Po)) 2 7 (Piece B Po);
          b3 = place (place b2 7 1 (Piece R Po)) 7 7 (Piece R Po);
          b4 = place b3 1 4 (Piece B Jang);
          b5 = place (place b4 0 3 (Piece B Sa)) 0 5 (Piece B Sa);
          b6 = place b5 8 4 (Piece R Jang);
          b7 = place (place b6 9 3 (Piece R Sa)) 9 5 (Piece R Sa);
          b8 = setupHomeRank b7 0 B blueSetup
      in setupHomeRank b8 9 R redSetup)"

definition fenMap :: "Piece \<Rightarrow> char" where
  "fenMap pc = (case team pc of
       R \<Rightarrow> (case type pc of Cha \<Rightarrow> CHR ''R'' | Ma \<Rightarrow> CHR ''N'' | Sang \<Rightarrow> CHR ''E''
              | Po \<Rightarrow> CHR ''C'' | Sa \<Rightarrow> CHR ''A'' | Jang \<Rightarrow> CHR ''K'' | Jol \<Rightarrow> CHR ''P'')
     | B \<Rightarrow> (case type pc of Cha \<Rightarrow> CHR ''r'' | Ma \<Rightarrow> CHR ''n'' | Sang \<Rightarrow> CHR ''e''
              | Po \<Rightarrow> CHR ''c'' | Sa \<Rightarrow> CHR ''a'' | Jang \<Rightarrow> CHR ''k'' | Jol \<Rightarrow> CHR ''p''))"

text \<open>Decimal text of a number, as string interpolation prints an integer.\<close>

definition digitChar :: "nat \<Rightarrow> char" where
  "digitChar d = ''0123456789'' ! d"

function showPos :: "int \<Rightarrow> string" where
  "showPos n = (if n < 10 then [digitChar (nat n)]
                else showPos (n div 10) @ [digitChar (nat (n mod 10))])"
  by pat_completeness auto
termination
  by (relation "measure nat") auto

definition showInt :: "int \<Rightarrow> string" where
  "showInt i = (if i < 0 then CHR ''-'' # showPos (- i) else showPos i)"

text \<open>The inner loop of \<open>generateFen\<close> over the cells \<open>c = 0 \<dots> 8\<close> of one row, with the
  running \<open>emptyCount\<close>; the first equation is the flush after the loop.\<close>

fun fenRow :: "Piece option list \<Rightarrow> nat \<Rightarrow> string" where
  "fenRow [] emptyCount = (if emptyCount > 0 then showInt (int emptyCount) else [])"
| "fenRow (None # cs) emptyCount = fenRow cs (emptyCount + 1)"
| "fenRow (Some pc # cs) emptyCount =
     (if emptyCount > 0 then showInt (int emptyCount) else []) @ [fenMap pc] @ fenRow cs 0"

fun joinWith :: "char \<Rightarrow> string list \<Rightarrow> string" where
  "joinWith sep [] = []"
| "joinWith sep [x] = x"
| "joinWith sep (x # y # ys) = x @ [sep] @ joinWith sep (y # ys)"

text \<open>\<open>generateFen\<close> reads \<open>board[r][c]\<close> for \<open>r = 0 \<dots> 9\<close>, \<open>c = 0 \<dots> 8\<close>: a missing row
  throws, a missing cell reads as empty.\<close>

definition generateFen :: "Board \<Rightarrow> Team \<Rightarrow> error + string" where
  "generateFen board turn =
     (if length board < 10 then Inl TypeError
      else (let rows = map (\<lambda>r. fenRow (map (\<lambda>c. if c < length (board ! r) then board ! r ! c else None)
                                             [0..<9]) 0) [0..<10];
                turnChar = (if turn = B then CHR ''b'' else CHR ''w'')
            in Inr (joinWith CHR ''/'' rows @ '' '' @ [turnChar] @ '' - - 0 1'')))"

section \<open>Application state and handlers (App.tsx)\<close>

datatype GameMode = PvP | CvC | PvC | CvP

text \<open>The \<open>notation\<close> string of a record is either the template
  \<open>sr,sc > er,ec\<close> filled with the four coordinates, or the literal \<open>PASS\<close>.\<close>

datatype Notation = Coords int int int int | PASS

record MoveRecord =
  seq :: nat
  moveNotation :: Notation
  moveTurn :: Team
  prevBoard :: Board

text \<open>The component state: the \<open>useState\<close> cells that the game logic reads or writes and
  the \<open>isEngineThinking\<close> ref. \<open>electronAPI\<close> says whether \<open>window.electronAPI\<close> exists and
  \<open>sent\<close> is the sequence of commands passed to \<open>sendCommand\<close>. The display-only cells
  (\<open>isFlipped\<close>, \<open>materialScore\<close>, \<open>engineScore\<close>) are left out. The click and
  button handlers and the effect are closures of the latest render, so the values they
  capture are the current ones and they are functions of the current state. The
  engine-output callback is registered once, by the mount effect with the empty dependency
  list, and keeps the closures of the first render (see \<open>mountView\<close> below).\<close>

record AppState =
  board :: Board
  turn :: Team
  gameStarted :: bool
  redSetup :: SetupType
  blueSetup :: SetupType
  gameMode :: GameMode
  selected :: "(int \<times> int) option"
  legalMoves :: "(int \<times> int) list"
  history :: "MoveRecord list"
  engineEnabled :: bool
  timeControl :: int
  isEngineThinking :: bool
  electronAPI :: bool
  sent :: "string list"

definition initialState :: "bool \<Rightarrow> AppState" where
  "initialState api =
     \<lparr>board = [], turn = B, gameStarted = False, redSetup = An, blueSetup = An, gameMode = PvP,
      selected = None, legalMoves = [], history = [], engineEnabled = False, timeControl = 6,
      isEngineThinking = False, electronAPI = api, sent = []\<rparr>"

definition flipTurn :: "Team \<Rightarrow> Team" where
  "flipTurn t = (if t = B then R else B)"

text \<open>The two commands of a search request.\<close>

definition searchCommands :: "string \<Rightarrow> int \<Rightarrow> string list" where
  "searchCommands fen tc = [''position fen '' @ fen, ''go movetime '' @ showInt (tc * 1000)]"

definition requestEngineMove :: "AppState \<Rightarrow> error + AppState" where
  "requestEngineMove s =
     (if \<not> electronAPI s then Inr s
      else (case generateFen (board s) (turn s) of
              Inl e \<Rightarrow> Inl e
            | Inr fen \<Rightarrow> Inr (s\<lparr>isEngineThinking := True,
                                sent := sent s @ searchCommands fen (timeControl s)\<rparr>)))"

definition checkEngineMove :: "AppState \<Rightarrow> error + AppState" where
  "checkEngineMove s =
     (if \<not> engineEnabled s \<or> \<not> gameStarted s \<or> isEngineThinking s then Inr s
      else (let shouldEngineMove =
                  (if gameMode s = CvC then True
                   else if gameMode s = PvC \<and> turn s = R then True
                   else if gameMode s = CvP \<and> turn s = B then True
                   else False)
            in if shouldEngineMove then requestEngineMove s else Inr s))"

definition startGame :: "AppState \<Rightarrow> AppState" where
  "startGame s =
     s\<lparr>board := initBoard (redSetup s) (blueSetup s), turn := B, history := [],
       gameStarted := True, selected := None, legalMoves := [], isEngineThinking := False\<rparr>"

text \<open>An assignment \<open>row[c] = v\<close>: an index at or past the end extends the array, the
  cells in between reading as empty; a negative index adds a named property and leaves the
  elements as they are.\<close>

definition setCol :: "Piece option list \<Rightarrow> int \<Rightarrow> Piece option \<Rightarrow> Piece option list" where
  "setCol row c v =
     (if c < 0 then row
      else if c < int (length row) then row[nat c := v]
      else row @ replicate (nat c - length row) None @ [v])"

definition setCell :: "Board \<Rightarrow> int \<Rightarrow> int \<Rightarrow> Piece option \<Rightarrow> error + Board" where
  "setCell b r c v =
     (if 0 \<le> r \<and> r < int (length b) then Inr (b[nat r := setCol (b ! nat r) c v])
      else Inl TypeError)"

text \<open>\<open>executeMove\<close>: \<open>prev\<close> and \<open>nb0\<close> are the two copies of the board; the moved value
  is whatever the source cell holds. An exception raised by a cell access or by
  \<open>generateFen\<close> is the outcome of the call.\<close>

definition executeMove :: "int \<times> int \<Rightarrow> int \<times> int \<Rightarrow> AppState \<Rightarrow> error + AppState" where
  "executeMove start end' s =
     (case start of (sr, sc) \<Rightarrow> (case end' of (er, ec) \<Rightarrow>
       (let prev = board s; nb0 = board s in
        (case cell nb0 sr sc of
           Inl e \<Rightarrow> Inl e
         | Inr pc \<Rightarrow>
            (case setCell nb0 er ec pc of
               Inl e \<Rightarrow> Inl e
             | Inr nb1 \<Rightarrow>
                (case setCell nb1 sr sc None of
                   Inl e \<Rightarrow> Inl e
                 | Inr newBoard \<Rightarrow>
                    (let s1 = s\<lparr>board := newBoard, selected := None, legalMoves := [],
                                history := history s @
                                  [\<lparr>seq = length (history s) + 1,
                                    moveNotation = Coords sr sc er ec,
                                    moveTurn = turn s, prevBoard = prev\<rparr>],
                                turn := flipTurn (turn s)\<rparr>
                     in if electronAPI s \<and> engineEnabled s
                        then (case generateFen newBoard (flipTurn (turn s)) of
                                Inl e \<Rightarrow> Inl e
                              | Inr fen \<Rightarrow>
                                  Inr (s1\<lparr>sent := sent s @ searchCommands fen (timeControl s)\<rparr>))
                        else Inr s1)))))))"

text \<open>\<open>executeMove\<close> as the closure of an arbitrary render. \<open>view\<close> holds the values
  that this render captured: the function reads \<open>board\<close>, \<open>turn\<close>, \<open>engineEnabled\<close> and
  \<open>timeControl\<close> from it. \<open>setBoard\<close>, \<open>setSelected\<close> and \<open>setLegalMoves\<close> store values,
  \<open>setHistory\<close> and \<open>setTurn\<close> are given updater functions and so work on the current
  history and side; \<open>window.electronAPI\<close> is global. With the current state as the view
  this is \<open>executeMove\<close> above.\<close>

definition executeMoveFrom ::
  "AppState \<Rightarrow> int \<times> int \<Rightarrow> int \<times> int \<Rightarrow> AppState \<Rightarrow> error + AppState" where
  "executeMoveFrom view start end' s =
     (case start of (sr, sc) \<Rightarrow> (case end' of (er, ec) \<Rightarrow>
       (let prev = board view; nb0 = board view in
        (case cell nb0 sr sc of
           Inl e \<Rightarrow> Inl e
         | Inr pc \<Rightarrow>
            (case setCell nb0 er ec pc of
               Inl e \<Rightarrow> Inl e
             | Inr nb1 \<Rightarrow>
                (case setCell nb1 sr sc None of
                   Inl e \<Rightarrow> Inl e
                 | Inr newBoard \<Rightarrow>
                    (let s1 = s\<lparr>board := newBoard, selected := None, legalMoves := [],
                                history := history s @
                                  [\<lparr>seq = length (history s) + 1,
                                    moveNotation = Coords sr sc er ec,
                                    moveTurn = turn view, prevBoard = prev\<rparr>],
                                turn := flipTurn (turn s)\<rparr>
                     in if electronAPI s \<and> engineEnabled view
                        then (case generateFen newBoard (flipTurn (turn view)) of
                                Inl e \<Rightarrow> Inl e
                              | Inr fen \<Rightarrow>
                                  Inr (s1\<lparr>sent := sent s @ searchCommands fen (timeControl view)\<rparr>))
                        else Inr s1)))))))"

definition undoMove :: "AppState \<Rightarrow> AppState" where
  "undoMove s =
     (if length (history s) = 0 then s
      else (let lastMove = history s ! (length (history s) - 1)
            in s\<lparr>board := prevBoard lastMove, history := butlast (history s),
                 turn := moveTurn lastMove, selected := None, legalMoves := []\<rparr>))"

definition passTurn :: "AppState \<Rightarrow> AppState" where
  "passTurn s =
     s\<lparr>history := history s @
          [\<lparr>seq = length (history s) + 1, moveNotation = PASS, moveTurn = turn s,
            prevBoard = board s\<rparr>],
       turn := flipTurn (turn s)\<rparr>"

definition resign :: "AppState \<Rightarrow> AppState" where
  "resign s = s\<lparr>gameStarted := False\<rparr>"

subsection \<open>Square clicks\<close>

definition allCells :: "(int \<times> int) list" where
  "allCells = concat (map (\<lambda>tr. map (\<lambda>tc. (tr, tc)) [0..8]) [0..9])"

text \<open>The double loop that collects the legal destinations of the piece on \<open>start\<close>.\<close>

fun collectMoves :: "Board \<Rightarrow> int \<times> int \<Rightarrow> Team \<Rightarrow> (int \<times> int) list \<Rightarrow> (int \<times> int) list outcome" where
  "collectMoves b start t [] = Some (Inr [])"
| "collectMoves b start t (d # ds) =
     bindR (isValidMove b start d t)
       (\<lambda>ok. bindR (collectMoves b start t ds)
          (\<lambda>rest. Some (Inr (if ok then d # rest else rest))))"

definition selectSquare :: "int \<Rightarrow> int \<Rightarrow> AppState \<Rightarrow> AppState outcome" where
  "selectSquare r c s =
     bindR (collectMoves (board s) (r, c) (turn s) allCells)
       (\<lambda>moves. Some (Inr (s\<lparr>selected := Some (r, c), legalMoves := moves\<rparr>)))"

definition handleSquareClick :: "int \<Rightarrow> int \<Rightarrow> AppState \<Rightarrow> AppState outcome" where
  "handleSquareClick r c s =
     (if \<not> gameStarted s then Some (Inr s)
      else if engineEnabled s \<and> gameMode s \<noteq> PvP \<and>
              (gameMode s = CvC \<or> (gameMode s = PvC \<and> turn s = R) \<or> (gameMode s = CvP \<and> turn s = B))
      then Some (Inr s)
      else (case selected s of
              None \<Rightarrow>
                (case cell (board s) r c of
                   Inl e \<Rightarrow> Some (Inl e)
                 | Inr None \<Rightarrow> Some (Inr s)
                 | Inr (Some pc) \<Rightarrow>
                     (if team pc = turn s then selectSquare r c s else Some (Inr s)))
            | Some (sr, sc) \<Rightarrow>
                (if sr = r \<and> sc = c then Some (Inr (s\<lparr>selected := None, legalMoves := []\<rparr>))
                 else (case cell (board s) sr sc of
                         Inl e \<Rightarrow> Some (Inl e)
                       | Inr None \<Rightarrow> Some (Inr s)
                       | Inr (Some pc) \<Rightarrow>
                           (case cell (board s) r c of
                              Inl e \<Rightarrow> Some (Inl e)
                            | Inr target \<Rightarrow>
                                (if (case target of Some t \<Rightarrow> team t = team pc | None \<Rightarrow> False)
                                 then selectSquare r c s
                                 else bindR (isValidMove (board s) (sr, sc) (r, c) (turn s))
                                        (\<lambda>ok. if ok then Some (executeMove (sr, sc) (r, c) s)
                                              else Some (Inr (s\<lparr>selected := None,
                                                                 legalMoves := []\<rparr>)))))))))"

subsection \<open>Engine output\<close>

text \<open>\<open>moveStr[i]\<close> is \<open>undefined\<close> past the end of the string; \<open>colMap\<close> of anything but
  the letters a to i is \<open>undefined\<close>; \<open>parseInt\<close> of one character is its digit value, or
  NaN for a character that is no digit and for \<open>undefined\<close>. \<open>None\<close> stands for both
  \<open>undefined\<close> and NaN, on which \<open>isNaN\<close> is true.\<close>

definition charAt :: "string \<Rightarrow> nat \<Rightarrow> char option" where
  "charAt str i = (if i < length str then Some (str ! i) else None)"

definition colMap :: "char option \<Rightarrow> int option" where
  "colMap k = (case k of None \<Rightarrow> None
     | Some ch \<Rightarrow> map_of [(CHR ''a'', 0), (CHR ''b'', 1), (CHR ''c'', 2), (CHR ''d'', 3), (CHR ''e'', 4),
                          (CHR ''f'', 5), (CHR ''g'', 6), (CHR ''h'', 7), (CHR ''i'', 8)] ch)"

definition parseInt :: "char option \<Rightarrow> int option" where
  "parseInt k = (case k of None \<Rightarrow> None
     | Some ch \<Rightarrow> map_of [(CHR ''0'', 0), (CHR ''1'', 1), (CHR ''2'', 2), (CHR ''3'', 3), (CHR ''4'', 4),
                          (CHR ''5'', 5), (CHR ''6'', 6), (CHR ''7'', 7), (CHR ''8'', 8), (CHR ''9'', 9)] ch)"

text \<open>The parsing part of \<open>applyEngineMove\<close>: the four values \<open>sr\<close>, \<open>sc\<close>, \<open>er\<close>, \<open>ec\<close>
  and the test that none of them is NaN.\<close>

definition decodeMove :: "string \<Rightarrow> ((int \<times> int) \<times> (int \<times> int)) option" where
  "decodeMove moveStr =
     (let sc = colMap (charAt moveStr 0);
          sr = map_option (\<lambda>d. 9 - d) (parseInt (charAt moveStr 1));
          ec = colMap (charAt moveStr 2);
          er = map_option (\<lambda>d. 9 - d) (parseInt (charAt moveStr 3))
      in (case (sr, sc, er, ec) of
            (Some sr', Some sc', Some er', Some ec') \<Rightarrow> Some ((sr', sc'), (er', ec'))
          | _ \<Rightarrow> None))"

text \<open>\<open>applyEngineMove\<close> as a function of the state it is run on.\<close>

definition applyEngineMove :: "string \<Rightarrow> AppState \<Rightarrow> error + AppState" where
  "applyEngineMove moveStr s =
     (case decodeMove moveStr of
        Some (start, end') \<Rightarrow> executeMove start end' s
      | None \<Rightarrow> Inr (s\<lparr>isEngineThinking := False\<rparr>))"

text \<open>\<open>output.split(' ')\<close> and \<open>output.startsWith(...)\<close>.\<close>

fun splitOn :: "char \<Rightarrow> string \<Rightarrow> string list" where
  "splitOn sep [] = [[]]"
| "splitOn sep (x # xs) =
     (if x = sep then [] # splitOn sep xs
      else (case splitOn sep xs of [] \<Rightarrow> [[x]] | w # ws \<Rightarrow> (x # w) # ws))"

definition startsWith :: "string \<Rightarrow> string \<Rightarrow> bool" where
  "startsWith str pre = (take (length pre) str = pre)"

text \<open>The callback given to \<open>onEngineOutput\<close>. It is created by the mount effect, whose
  dependency list is empty, so the \<open>applyEngineMove\<close> and \<open>executeMove\<close> it calls are
  those of the first render: they see the state cells as \<open>useState\<close> initialised them
  (\<open>mountView\<close>), while the \<open>isEngineThinking\<close> ref and \<open>window.electronAPI\<close> are shared
  with the running component. The result is the state after the callback and the exception
  it left uncaught, if any; the assignment to the ref comes first and stays. The two score
  branches only set \<open>engineScore\<close>, which is not part of the modelled state.\<close>

definition mountView :: "AppState \<Rightarrow> AppState" where
  "mountView s = initialState (electronAPI s)"

definition applyEngineMoveFrom :: "AppState \<Rightarrow> string \<Rightarrow> AppState \<Rightarrow> error + AppState" where
  "applyEngineMoveFrom view moveStr s =
     (case decodeMove moveStr of
        Some (start, end') \<Rightarrow> executeMoveFrom view start end' s
      | None \<Rightarrow> Inr (s\<lparr>isEngineThinking := False\<rparr>))"

definition onEngineOutput :: "string \<Rightarrow> AppState \<Rightarrow> AppState \<times> error option" where
  "onEngineOutput output s =
     (if startsWith output ''bestmove''
      then (let s1 = s\<lparr>isEngineThinking := False\<rparr>;
                parts = splitOn CHR '' '' output
            in (if 1 < length parts \<and> parts ! 1 \<noteq> [] \<and> parts ! 1 \<noteq> ''(none)''
                then (case applyEngineMoveFrom (mountView s1) (parts ! 1) s1 of
                        Inl e \<Rightarrow> (s1, Some e)
                      | Inr s2 \<Rightarrow> (s2, None))
                else (s1, None)))
      else (s, None))"

subsection \<open>Events and the effect hook\<close>

datatype event =
    StartGame
  | SquareClick int int
  | EngineOutput string
  | UndoMove
  | PassTurn
  | Resign
  | ToggleEngine
  | SetGameMode GameMode
  | SetTimeControl int
  | SetRedSetup SetupType
  | SetBlueSetup SetupType

definition handle :: "event \<Rightarrow> AppState \<Rightarrow> AppState outcome" where
  "handle ev s = (case ev of
       StartGame \<Rightarrow> Some (Inr (startGame s))
     | SquareClick r c \<Rightarrow> handleSquareClick r c s
     | EngineOutput output \<Rightarrow> Some (Inr (fst (onEngineOutput output s)))
     | UndoMove \<Rightarrow> Some (Inr (undoMove s))
     | PassTurn \<Rightarrow> Some (Inr (passTurn s))
     | Resign \<Rightarrow> Some (Inr (resign s))
     | ToggleEngine \<Rightarrow> Some (Inr (s\<lparr>engineEnabled := \<not> engineEnabled s\<rparr>))
     | SetGameMode m \<Rightarrow> Some (Inr (s\<lparr>gameMode := m\<rparr>))
     | SetTimeControl n \<Rightarrow> Some (Inr (s\<lparr>timeControl := max 1 n\<rparr>))
     | SetRedSetup u \<Rightarrow> Some (Inr (s\<lparr>redSetup := u\<rparr>))
     | SetBlueSetup u \<Rightarrow> Some (Inr (s\<lparr>blueSetup := u\<rparr>)))"

text \<open>The effect with dependencies \<open>[board, turn, gameStarted, engineEnabled]\<close>: it runs
  after a handler that changed one of them. Its call of \<open>calculateMaterialScore\<close> only
  feeds the display and is left out. \<open>startGame\<close> always installs a new board
  array, so the effect runs after it even when the new board has the old contents.\<close>

definition effect :: "AppState \<Rightarrow> error + AppState" where
  "effect s = (if gameStarted s then checkEngineMove s else Inr s)"

definition depsChanged :: "AppState \<Rightarrow> AppState \<Rightarrow> bool" where
  "depsChanged s s' =
     (board s \<noteq> board s' \<or> turn s \<noteq> turn s' \<or> gameStarted s \<noteq> gameStarted s'
      \<or> engineEnabled s \<noteq> engineEnabled s')"

definition step :: "event \<Rightarrow> AppState \<Rightarrow> AppState outcome" where
  "step ev s =
     bindR (handle ev s)
       (\<lambda>s'. if ev = StartGame \<or> depsChanged s s' then Some (effect s') else Some (Inr s'))"

text \<open>A run of events, followed up to the first exception that a click handler or the
  effect leaves uncaught. An exception left uncaught by the engine-output callback is
  outside the component: the run goes on from the state the callback reached.\<close>

fun run :: "event list \<Rightarrow> AppState \<Rightarrow> AppState outcome" where
  "run [] s = Some (Inr s)"
| "run (ev # evs) s = bindR (step ev s) (run evs)"


section \<open>Observations of a run and the wording of the spec\<close>

text \<open>The commands a run has sent; \<open>None\<close> when the run threw or did not end.\<close>

definition outSent :: "AppState outcome \<Rightarrow> string list option" where
  "outSent r = (case r of Some (Inr s) \<Rightarrow> Some (sent s) | _ \<Rightarrow> None)"

text \<open>The two inputs that ask for a move: a click on a square and a line of engine
  output.\<close>

definition isMoveInput :: "event \<Rightarrow> bool" where
  "isMoveInput ev = (case ev of SquareClick r c \<Rightarrow> True | EngineOutput output \<Rightarrow> True | _ \<Rightarrow> False)"

text \<open>The cell "one step from the source along the short axis of the displacement", in the
  words of the spec's elephant rule.\<close>

definition shortAxisStep :: "int \<times> int \<Rightarrow> int \<times> int \<Rightarrow> int \<times> int" where
  "shortAxisStep start end' =
     (case start of (sy, sx) \<Rightarrow> (case end' of (ey, ex) \<Rightarrow>
        (if \<bar>ex - sx\<bar> < \<bar>ey - sy\<bar> then (sy, sx + sgn (ex - sx)) else (sy + sgn (ey - sy), sx))))"

text \<open>The position of the spec's cannon example: a cannon on (7,1), one piece on (5,1),
  nothing else on the board.\<close>

definition specCannonBoard :: Board where
  "specCannonBoard =
     place (place (replicate 10 (replicate 9 None)) 7 1 (Piece R Po)) 5 1 (Piece R Jol)"

text \<open>The move token of the spec: file letters a to i are columns 0 to 8, and a rank digit
  \<open>d\<close> is row \<open>9 - d\<close>.\<close>

definition isFile :: "char \<Rightarrow> bool" where
  "isFile ch = (ch \<in> set ''abcdefghi'')"

definition isRank :: "char \<Rightarrow> bool" where
  "isRank ch = (ch \<in> set ''0123456789'')"

definition fileCol :: "char \<Rightarrow> int" where
  "fileCol ch = int (of_char ch) - 97"

definition rankRow :: "char \<Rightarrow> int" where
  "rankRow ch = 9 - (int (of_char ch) - 48)"

section \<open>The obstacle count is the number of pieces strictly between\<close>

lemma cell_row_ok:
  "0 \<le> r \<Longrightarrow> r < int (length bd) \<Longrightarrow> \<exists>p. cell bd r c = Inr p"
  by (simp add: cell_def Let_def)

lemma cell_Inr_row:
  "cell bd r c = Inr p \<Longrightarrow> 0 \<le> r \<and> r < int (length bd)"
  by (simp add: cell_def Let_def split: if_splits)

lemma countLoop_walk:
  assumes nz: "dy \<noteq> 0 \<or> dx \<noteq> 0"
    and rows: "\<forall>j<m. 0 \<le> r + int j * dy \<and> r + int j * dy < int (length bd)"
    and tgt: "ey = r + int m * dy" "ex = c + int m * dx"
  shows "countLoop bd dy dx ey ex r c count =
           Some (Inr (count + length (filter (occupied bd)
                   (map (\<lambda>j. (r + int j * dy, c + int j * dx)) [0..<m]))))"
  using rows tgt
proof (induction m arbitrary: r c count)
  case 0
  then show ?case by (subst countLoop.simps) simp
next
  case (Suc m)
  have ne: "r \<noteq> ey \<or> c \<noteq> ex" using nz Suc.prems(2,3) by auto
  from Suc.prems(1) have r0: "0 \<le> r \<and> r < int (length bd)" by force
  then obtain p where p: "cell bd r c = Inr p" by (simp add: cell_def Let_def)
  have rows': "\<forall>j<m. 0 \<le> (r + dy) + int j * dy \<and> (r + dy) + int j * dy < int (length bd)"
  proof (intro allI impI)
    fix j assume "j < m"
    then have "Suc j < Suc m" by simp
    with Suc.prems(1) have "0 \<le> r + int (Suc j) * dy \<and> r + int (Suc j) * dy < int (length bd)" by blast
    then show "0 \<le> (r + dy) + int j * dy \<and> (r + dy) + int j * dy < int (length bd)"
      by (simp add: algebra_simps)
  qed
  have t1: "ey = (r + dy) + int m * dy" using Suc.prems(2) by (simp add: algebra_simps)
  have t2: "ex = (c + dx) + int m * dx" using Suc.prems(3) by (simp add: algebra_simps)
  note IH = Suc.IH[OF rows' t1 t2]
  have shift: "map (\<lambda>j. (r + int j * dy, c + int j * dx)) [0..<Suc m]
       = (r, c) # map (\<lambda>j. (r + dy + int j * dy, c + dx + int j * dx)) [0..<m]"
  proof -
    have "[0..<Suc m] = 0 # map Suc [0..<m]"
      by (simp add: upt_conv_Cons map_Suc_upt del: upt_Suc)
    then show ?thesis by (simp add: algebra_simps comp_def del: upt_Suc)
  qed
  have occ: "occupied bd (r, c) = (p \<noteq> None)"
    using p by (cases p) (simp_all add: occupied_def)
  show ?case
    apply (subst countLoop.simps)
    apply (simp only: shift)
    using ne p occ by (simp add: IH)
qed

lemma countObstacles_aligned:
  assumes sy: "0 \<le> sy" "sy < int (length bd)"
    and ey: "0 \<le> ey" "ey < int (length bd)"
    and ne: "sy \<noteq> ey \<or> sx \<noteq> ex"
    and al: "sx = ex \<or> sy = ey \<or> \<bar>ex - sx\<bar> = \<bar>ey - sy\<bar>"
  shows "countObstacles bd (sy, sx) (ey, ex) = Some (Inr (piecesBetween bd (sy, sx) (ey, ex)))"
proof -
  define dy where "dy = sgn (ey - sy)"
  define dx where "dx = sgn (ex - sx)"
  define N where "N = nat (max \<bar>ey - sy\<bar> \<bar>ex - sx\<bar>)"
  have Npos: "0 < N" using ne by (auto simp: N_def)
  have ty: "ey - sy = int N * dy"
    using al ne by (auto simp: N_def dy_def sgn_if max_def)
  have tx: "ex - sx = int N * dx"
    using al ne by (auto simp: N_def dx_def sgn_if max_def)
  have nz: "dy \<noteq> 0 \<or> dx \<noteq> 0" using ne by (auto simp: dy_def dx_def sgn_if)
  have dyb: "dy = 0 \<or> dy = 1 \<or> dy = -1" by (auto simp: dy_def sgn_if)
  have rows: "\<forall>j<N - 1. 0 \<le> (sy + dy) + int j * dy \<and> (sy + dy) + int j * dy < int (length bd)"
  proof (intro allI impI)
    fix j assume j: "j < N - 1"
    have e: "(sy + dy) + int j * dy = sy + int (Suc j) * dy" by (simp add: algebra_simps)
    have b: "int (Suc j) < int N" using j by simp
    have "ey = sy + int N * dy" using ty by simp
    then show "0 \<le> (sy + dy) + int j * dy \<and> (sy + dy) + int j * dy < int (length bd)"
      unfolding e using dyb sy ey b by auto
  qed
  have t1: "ey = (sy + dy) + int (N - 1) * dy"
    using ty Npos by (simp add: algebra_simps of_nat_diff)
  have t2: "ex = (sx + dx) + int (N - 1) * dx"
    using tx Npos by (simp add: algebra_simps of_nat_diff)
  have idx: "[1..<N] = map Suc [0..<N - 1]"
    using Npos by (simp add: map_Suc_upt)
  have cells: "strictlyBetween (sy, sx) (ey, ex)
        = map (\<lambda>j. ((sy + dy) + int j * dy, (sx + dx) + int j * dx)) [0..<N - 1]"
  proof -
    have "strictlyBetween (sy, sx) (ey, ex)
        = map (\<lambda>k. (sy + int k * dy, sx + int k * dx)) (map Suc [0..<N - 1])"
      unfolding strictlyBetween_def idx[symmetric]
      by (simp add: N_def dy_def dx_def)
    also have "\<dots> = map (\<lambda>j. ((sy + dy) + int j * dy, (sx + dx) + int j * dx)) [0..<N - 1]"
      by (simp add: comp_def algebra_simps)
    finally show ?thesis .
  qed
  show ?thesis
    unfolding countObstacles_def piecesBetween_def cells
    by (simp add: Let_def dy_def[symmetric] dx_def[symmetric]
          countLoop_walk[OF nz rows t1 t2])
qed

section \<open>Rule engine: the jumping pieces\<close>

lemma div2_sgn: "\<bar>d::int\<bar> = 2 \<Longrightarrow> d div 2 = sgn d"
  by (cases "d < 0") auto

lemma div3_sgn: "\<bar>d::int\<bar> = 3 \<Longrightarrow> d div 3 = sgn d"
  by (cases "d < 0") auto

lemma isEmpty_Inr: "cell bd r c = Inr p \<Longrightarrow> isEmpty bd r c = Some (Inr (p = None))"
  by (simp add: isEmpty_def)

lemma initBoard_An_An:
  "initBoard An An =
    [[Some (Piece B Cha), Some (Piece B Ma), Some (Piece B Sang), Some (Piece B Sa), None,
      Some (Piece B Sa), Some (Piece B Sang), Some (Piece B Ma), Some (Piece B Cha)],
     [None, None, None, None, Some (Piece B Jang), None, None, None, None],
     [None, Some (Piece B Po), None, None, None, None, None, Some (Piece B Po), None],
     [Some (Piece B Jol), None, Some (Piece B Jol), None, Some (Piece B Jol), None,
      Some (Piece B Jol), None, Some (Piece B Jol)],
     [None, None, None, None, None, None, None, None, None],
     [None, None, None, None, None, None, None, None, None],
     [Some (Piece R Jol), None, Some (Piece R Jol), None, Some (Piece R Jol), None,
      Some (Piece R Jol), None, Some (Piece R Jol)],
     [None, Some (Piece R Po), None, None, None, None, None, Some (Piece R Po), None],
     [None, None, None, None, Some (Piece R Jang), None, None, None, None],
     [Some (Piece R Cha), Some (Piece R Ma), Some (Piece R Sang), Some (Piece R Sa), None,
      Some (Piece R Sa), Some (Piece R Sang), Some (Piece R Ma), Some (Piece R Cha)]]"
  by code_simp

text \<open>
  Claim C10. A horse standing on the source square, of the side to move, with no piece of
  its own side on the destination: the move is legal exactly when it is a jump of one
  column and two rows whose row-axis neighbour of the source is empty, or a jump of two
  columns and one row whose column-axis neighbour of the source is empty. The checked
  cell is the one next to the source along the longer displacement; for the horse on
  (9,1) going to (7,2) it is (8,1).
\<close>

theorem horse_legal_iff_leg_empty:
  assumes pc: "cell bd sy sx = Inr (Some pc)" "type pc = Ma" "team pc = tn"
    and tg: "cell bd ey ex = Inr tg" "\<not> (case tg of Some t \<Rightarrow> team t = team pc | None \<Rightarrow> False)"
  shows "isValidMove bd (sy, sx) (ey, ex) tn = Some (Inr (
            (\<bar>ex - sx\<bar> = 1 \<and> \<bar>ey - sy\<bar> = 2 \<and> cell bd (sy + sgn (ey - sy)) sx = Inr None)
          \<or> (\<bar>ex - sx\<bar> = 2 \<and> \<bar>ey - sy\<bar> = 1 \<and> cell bd sy (sx + sgn (ex - sx)) = Inr None)))"
proof -
  have ne: "(sy = ey \<and> sx = ex) = False"
    using pc tg by (auto split: option.splits)
  have rs: "0 \<le> sy \<and> sy < int (length bd)" using pc(1) by (rule cell_Inr_row)
  have re: "0 \<le> ey \<and> ey < int (length bd)" using tg(1) by (rule cell_Inr_row)
  have top: "isValidMove bd (sy, sx) (ey, ex) tn = pieceRule bd (sy, sx) (ey, ex) pc tg"
    using pc tg by (simp add: isValidMove_def ne)
  consider (a) "\<bar>ex - sx\<bar> = 1 \<and> \<bar>ey - sy\<bar> = 2" | (b) "\<bar>ex - sx\<bar> = 2 \<and> \<bar>ey - sy\<bar> = 1"
    | (c) "\<not> (\<bar>ex - sx\<bar> = 1 \<and> \<bar>ey - sy\<bar> = 2) \<and> \<not> (\<bar>ex - sx\<bar> = 2 \<and> \<bar>ey - sy\<bar> = 1)"
    by blast
  then show ?thesis
  proof cases
    case a
    then have d: "(ey - sy) div 2 = sgn (ey - sy)" by (simp add: div2_sgn)
    have "0 \<le> sy + sgn (ey - sy) \<and> sy + sgn (ey - sy) < int (length bd)"
      using a rs re by (auto simp: sgn_if)
    then obtain p where p: "cell bd (sy + sgn (ey - sy)) sx = Inr p"
      using cell_row_ok by blast
    show ?thesis unfolding top using a pc(2) p
      by (simp add: pieceRule_def Let_def d isEmpty_Inr)
  next
    case b
    then have d: "(ex - sx) div 2 = sgn (ex - sx)" by (simp add: div2_sgn)
    obtain p where p: "cell bd sy (sx + sgn (ex - sx)) = Inr p"
      using cell_row_ok rs by blast
    show ?thesis unfolding top using b pc(2) p
      by (simp add: pieceRule_def Let_def d isEmpty_Inr)
  next
    case c
    show ?thesis unfolding top using c pc(2)
      by (auto simp add: pieceRule_def Let_def)
  qed
qed


theorem horse_legal_iff_leg_empty_witness:
  "cell (initBoard An An) 9 1 = Inr (Some (Piece R Ma)) \<and> type (Piece R Ma) = Ma \<and> team (Piece R Ma) = R
   \<and> cell (initBoard An An) 7 2 = Inr None
   \<and> cell (initBoard An An) 8 1 = Inr None
   \<and> isValidMove (initBoard An An) (9, 1) (7, 2) R = Some (Inr True)"
proof -
  have h1: "cell (initBoard An An) 9 1 = Inr (Some (Piece R Ma))"
    by (simp add: initBoard_An_An cell_def)
  have h4: "cell (initBoard An An) 7 2 = Inr None"
    by (simp add: initBoard_An_An cell_def)
  have leg: "cell (initBoard An An) 8 1 = Inr None"
    by (simp add: initBoard_An_An cell_def)
  have "isValidMove (initBoard An An) (9, 1) (7, 2) R = Some (Inr True)"
    using horse_legal_iff_leg_empty[OF h1 _ _ h4, of R] leg by simp
  with h1 h4 leg show ?thesis by simp
qed

text \<open>
  Claim C8. An elephant standing on the source square, of the side to move, with no piece
  of its own side on the destination: the move is legal exactly when it is a jump of two
  columns and three rows, or of three columns and two rows, and both cells that
  \<open>isValidMove\<close> reads are empty. The first of them is one step from the source along
  the longer displacement, the second one further diagonal step toward the destination.
\<close>

theorem elephant_legal_iff_path_empty:
  assumes pc: "cell bd sy sx = Inr (Some pc)" "type pc = Sang" "team pc = tn"
    and tg: "cell bd ey ex = Inr tg" "\<not> (case tg of Some t \<Rightarrow> team t = team pc | None \<Rightarrow> False)"
  shows "isValidMove bd (sy, sx) (ey, ex) tn = Some (Inr (
            (\<bar>ex - sx\<bar> = 2 \<and> \<bar>ey - sy\<bar> = 3
               \<and> cell bd (sy + sgn (ey - sy)) sx = Inr None
               \<and> cell bd (sy + 2 * sgn (ey - sy)) (sx + sgn (ex - sx)) = Inr None)
          \<or> (\<bar>ex - sx\<bar> = 3 \<and> \<bar>ey - sy\<bar> = 2
               \<and> cell bd sy (sx + sgn (ex - sx)) = Inr None
               \<and> cell bd (sy + sgn (ey - sy)) (sx + 2 * sgn (ex - sx)) = Inr None)))"
proof -
  have ne: "(sy = ey \<and> sx = ex) = False"
    using pc tg by (auto split: option.splits)
  have rs: "0 \<le> sy \<and> sy < int (length bd)" using pc(1) by (rule cell_Inr_row)
  have re: "0 \<le> ey \<and> ey < int (length bd)" using tg(1) by (rule cell_Inr_row)
  have top: "isValidMove bd (sy, sx) (ey, ex) tn = pieceRule bd (sy, sx) (ey, ex) pc tg"
    using pc tg by (simp add: isValidMove_def ne)
  consider (a) "\<bar>ex - sx\<bar> = 2 \<and> \<bar>ey - sy\<bar> = 3" | (b) "\<bar>ex - sx\<bar> = 3 \<and> \<bar>ey - sy\<bar> = 2"
    | (c) "\<not> (\<bar>ex - sx\<bar> = 2 \<and> \<bar>ey - sy\<bar> = 3) \<and> \<not> (\<bar>ex - sx\<bar> = 3 \<and> \<bar>ey - sy\<bar> = 2)"
    by blast
  then show ?thesis
  proof cases
    case a
    then have d: "(ey - sy) div 3 = sgn (ey - sy)" "(ex - sx) div 2 = sgn (ex - sx)"
      by (simp_all add: div2_sgn div3_sgn)
    have "0 \<le> sy + sgn (ey - sy) \<and> sy + sgn (ey - sy) < int (length bd)"
      using a rs re by (auto simp: sgn_if)
    then obtain p where p: "cell bd (sy + sgn (ey - sy)) sx = Inr p"
      using cell_row_ok by blast
    have "0 \<le> sy + sgn (ey - sy) * 2 \<and> sy + sgn (ey - sy) * 2 < int (length bd)"
      using a rs re by (auto simp: sgn_if)
    then obtain q where q: "cell bd (sy + sgn (ey - sy) * 2) (sx + sgn (ex - sx)) = Inr q"
      using cell_row_ok by blast
    show ?thesis unfolding top using a pc(2) p q
      by (simp add: pieceRule_def Let_def d isEmpty_Inr bindR_def mult.commute)
  next
    case b
    then have d: "(ex - sx) div 3 = sgn (ex - sx)" "(ey - sy) div 2 = sgn (ey - sy)"
      by (simp_all add: div2_sgn div3_sgn)
    obtain p where p: "cell bd sy (sx + sgn (ex - sx)) = Inr p"
      using cell_row_ok rs by blast
    have "0 \<le> sy + sgn (ey - sy) \<and> sy + sgn (ey - sy) < int (length bd)"
      using b rs re by (auto simp: sgn_if)
    then obtain q where q: "cell bd (sy + sgn (ey - sy)) (sx + sgn (ex - sx) * 2) = Inr q"
      using cell_row_ok by blast
    show ?thesis unfolding top using b pc(2) p q
      by (simp add: pieceRule_def Let_def d isEmpty_Inr bindR_def mult.commute)
  next
    case c
    show ?thesis unfolding top using c pc(2)
      by (auto simp add: pieceRule_def Let_def)
  qed
qed

lemma initBoard_An_Wan:
  "initBoard An Wan =
    [[Some (Piece B Cha), Some (Piece B Ma), Some (Piece B Sang), Some (Piece B Sa), None,
      Some (Piece B Sa), Some (Piece B Ma), Some (Piece B Sang), Some (Piece B Cha)],
     [None, None, None, None, Some (Piece B Jang), None, None, None, None],
     [None, Some (Piece B Po), None, None, None, None, None, Some (Piece B Po), None],
     [Some (Piece B Jol), None, Some (Piece B Jol), None, Some (Piece B Jol), None,
      Some (Piece B Jol), None, Some (Piece B Jol)],
     [None, None, None, None, None, None, None, None, None],
     [None, None, None, None, None, None, None, None, None],
     [Some (Piece R Jol), None, Some (Piece R Jol), None, Some (Piece R Jol), None,
      Some (Piece R Jol), None, Some (Piece R Jol)],
     [None, Some (Piece R Po), None, None, None, None, None, Some (Piece R Po), None],
     [None, None, None, None, Some (Piece R Jang), None, None, None, None],
     [Some (Piece R Cha), Some (Piece R Ma), Some (Piece R Sang), Some (Piece R Sa), None,
      Some (Piece R Sa), Some (Piece R Sang), Some (Piece R Ma), Some (Piece R Cha)]]"
  by code_simp

text \<open>
  The theorem at the opening position with Blue's setup \<open>Wan\<close>: the elephant on (0,7)
  may jump to (3,5) over the empty cells (1,7) and (2,6).
\<close>

theorem elephant_legal_iff_path_empty_witness:
  "cell (initBoard An Wan) 0 7 = Inr (Some (Piece B Sang))
   \<and> cell (initBoard An Wan) 3 5 = Inr None
   \<and> cell (initBoard An Wan) 1 7 = Inr None
   \<and> cell (initBoard An Wan) 2 6 = Inr None
   \<and> isValidMove (initBoard An Wan) (0, 7) (3, 5) B = Some (Inr True)"
proof -
  have h1: "cell (initBoard An Wan) 0 7 = Inr (Some (Piece B Sang))"
    by (simp add: initBoard_An_Wan cell_def)
  have h4: "cell (initBoard An Wan) 3 5 = Inr None"
    by (simp add: initBoard_An_Wan cell_def)
  have c1: "cell (initBoard An Wan) 1 7 = Inr None"
    by (simp add: initBoard_An_Wan cell_def)
  have c2: "cell (initBoard An Wan) 2 6 = Inr None"
    by (simp add: initBoard_An_Wan cell_def)
  have "isValidMove (initBoard An Wan) (0, 7) (3, 5) B = Some (Inr True)"
    using elephant_legal_iff_path_empty[OF h1 _ _ h4, of B] c1 c2 by simp
  with h1 h4 c1 c2 show ?thesis by simp
qed

text \<open>
  The same jump refutes the reading of C8 with the first cell taken along the short axis:
  that cell, (0,6), holds a horse and the move is legal all the same.
\<close>

theorem elephant_short_axis_counterexample:
  "isValidMove (initBoard An Wan) (0, 7) (3, 5) B = Some (Inr True)
   \<and> shortAxisStep (0, 7) (3, 5) = (0, 6)
   \<and> cell (initBoard An Wan) 0 6 = Inr (Some (Piece B Ma))"
  by code_simp

section \<open>Rule engine: the cannon\<close>

text \<open>
  Claim C3. A cannon standing on the source square, of the side to move, with no piece of
  its own side on the destination: the move is legal exactly when the destination holds no
  cannon, the move runs along a row, a column or (both squares in the mover's palace) a
  diagonal, and exactly one piece stands strictly between source and destination. The
  kind of that piece is not looked at.
\<close>

theorem cannon_legal_iff_one_screen:
  assumes pc: "cell bd sy sx = Inr (Some pc)" "type pc = Po" "team pc = tn"
    and tg: "cell bd ey ex = Inr tg" "\<not> (case tg of Some t \<Rightarrow> team t = team pc | None \<Rightarrow> False)"
  shows "isValidMove bd (sy, sx) (ey, ex) tn = Some (Inr (
            \<not> (case tg of Some t \<Rightarrow> type t = Po | None \<Rightarrow> False)
          \<and> (sx = ex \<or> sy = ey
               \<or> (inPalace sy sx (team pc) \<and> inPalace ey ex (team pc) \<and> \<bar>ex - sx\<bar> = \<bar>ey - sy\<bar>))
          \<and> piecesBetween bd (sy, sx) (ey, ex) = 1))"
proof -
  have ne: "(sy = ey \<and> sx = ex) = False"
    using pc tg by (auto split: option.splits)
  have ne': "sy \<noteq> ey \<or> sx \<noteq> ex" using ne by blast
  have rs: "0 \<le> sy" "sy < int (length bd)" using cell_Inr_row[OF pc(1)] by simp_all
  have re: "0 \<le> ey" "ey < int (length bd)" using cell_Inr_row[OF tg(1)] by simp_all
  have top: "isValidMove bd (sy, sx) (ey, ex) tn = pieceRule bd (sy, sx) (ey, ex) pc tg"
    using pc tg by (simp add: isValidMove_def ne)
  have cnt: "sx = ex \<or> sy = ey \<or> \<bar>ex - sx\<bar> = \<bar>ey - sy\<bar> \<Longrightarrow>
     countObstacles bd (sy, sx) (ey, ex) = Some (Inr (piecesBetween bd (sy, sx) (ey, ex)))"
    by (rule countObstacles_aligned[OF rs re ne'])
  show ?thesis
  proof (cases "case tg of Some t \<Rightarrow> type t = Po | None \<Rightarrow> False")
    case True
    then show ?thesis unfolding top using pc(2) by (simp add: pieceRule_def Let_def)
  next
    case notpo: False
    show ?thesis
    proof (cases "sx = ex \<or> sy = ey")
      case True
      then have c: "countObstacles bd (sy, sx) (ey, ex) = Some (Inr (piecesBetween bd (sy, sx) (ey, ex)))"
        by (intro cnt) blast
      show ?thesis unfolding top using pc(2) notpo True
        by (auto simp add: pieceRule_def Let_def bindR_def c)
    next
      case nl: False
      show ?thesis
      proof (cases "inPalace sy sx (team pc) \<and> inPalace ey ex (team pc) \<and> \<bar>ex - sx\<bar> = \<bar>ey - sy\<bar>")
        case True
        then have c: "countObstacles bd (sy, sx) (ey, ex) = Some (Inr (piecesBetween bd (sy, sx) (ey, ex)))"
          by (intro cnt) blast
        show ?thesis unfolding top using pc(2) notpo nl True
          by (simp add: pieceRule_def Let_def bindR_def c)
      next
        case False
        then show ?thesis unfolding top using pc(2) notpo nl
          by (auto simp add: pieceRule_def Let_def)
      qed
    qed
  qed
qed

text \<open>
  The theorem at the spec's example: cannon on (7,1), one piece on (5,1), empty target
  (2,1).
\<close>

theorem cannon_legal_iff_one_screen_witness:
  "cell specCannonBoard 7 1 = Inr (Some (Piece R Po))
   \<and> cell specCannonBoard 2 1 = Inr None
   \<and> piecesBetween specCannonBoard (7, 1) (2, 1) = 1
   \<and> isValidMove specCannonBoard (7, 1) (2, 1) R = Some (Inr True)"
proof -
  have h1: "cell specCannonBoard 7 1 = Inr (Some (Piece R Po))" by code_simp
  have h4: "cell specCannonBoard 2 1 = Inr None" by code_simp
  have n: "piecesBetween specCannonBoard (7, 1) (2, 1) = 1" by code_simp
  have "isValidMove specCannonBoard (7, 1) (2, 1) R = Some (Inr True)"
    using cannon_legal_iff_one_screen[OF h1 _ _ h4, of R] n by simp
  with h1 h4 n show ?thesis by simp
qed

text \<open>
  At the opening position the cannon on (7,1) may capture the horse on (0,1): the only
  piece between them is the cannon on (2,1), so a cannon does serve as the screen.
\<close>

theorem cannon_screen_counterexample:
  "isValidMove (initBoard An An) (7, 1) (0, 1) R = Some (Inr True)
   \<and> filter (occupied (initBoard An An)) (strictlyBetween (7, 1) (0, 1)) = [(2, 1)]
   \<and> cell (initBoard An An) 2 1 = Inr (Some (Piece B Po))"
  by code_simp

section \<open>Rule engine: totality\<close>

lemma ex_bool_simps: "\<exists>b. \<not> b" "\<exists>b::bool. b"
  by blast+

lemma pieceRule_total:
  assumes rs: "0 \<le> sy" "sy < int (length bd)"
    and re: "0 \<le> ey" "ey < int (length bd)"
    and ne: "sy \<noteq> ey \<or> sx \<noteq> ex"
  shows "\<exists>b. pieceRule bd (sy, sx) (ey, ex) pc tg = Some (Inr b)"
proof -
  have cnt: "sx = ex \<or> sy = ey \<or> \<bar>ex - sx\<bar> = \<bar>ey - sy\<bar> \<Longrightarrow>
     countObstacles bd (sy, sx) (ey, ex) = Some (Inr (piecesBetween bd (sy, sx) (ey, ex)))"
    by (rule countObstacles_aligned[OF rs re ne])
  have emp: "\<exists>b. isEmpty bd r c = Some (Inr b)" if "0 \<le> r" "r < int (length bd)" for r c
    using cell_row_ok[OF that, of c] by (auto simp: isEmpty_def)
  show ?thesis
  proof (cases "type pc")
    case Cha
    show ?thesis
    proof (cases "sx = ex \<or> sy = ey")
      case True
      then have c: "countObstacles bd (sy, sx) (ey, ex) = Some (Inr (piecesBetween bd (sy, sx) (ey, ex)))"
        by (intro cnt) blast
      show ?thesis using Cha True
        by (auto simp add: ex_bool_simps pieceRule_def Let_def bindR_def hasObstacle_def c)
    next
      case nl: False
      show ?thesis
      proof (cases "inPalace sy sx (team pc) \<and> inPalace ey ex (team pc) \<and> \<bar>ex - sx\<bar> = \<bar>ey - sy\<bar>")
        case True
        then have c: "countObstacles bd (sy, sx) (ey, ex) = Some (Inr (piecesBetween bd (sy, sx) (ey, ex)))"
          by (intro cnt) blast
        show ?thesis using Cha nl True
          by (simp add: ex_bool_simps pieceRule_def Let_def bindR_def hasObstacle_def c)
      next
        case False
        then have f: "(inPalace sy sx (team pc) \<and> inPalace ey ex (team pc) \<and> \<bar>ex - sx\<bar> = \<bar>ey - sy\<bar>) = False"
          by simp
        have g: "(sx = ex \<or> sy = ey) = False" using nl by simp
        show ?thesis using Cha
          by (simp add: ex_bool_simps pieceRule_def Let_def bindR_def f g)
      qed
    qed
  next
    case Ma
    show ?thesis
    proof (cases "\<bar>ex - sx\<bar> = 1 \<and> \<bar>ey - sy\<bar> = 2")
      case True
      then have "0 \<le> sy + (ey - sy) div 2" "sy + (ey - sy) div 2 < int (length bd)"
        using rs re by (auto simp: div2_sgn sgn_if)
      from emp[OF this] show ?thesis using Ma True by (simp add: ex_bool_simps pieceRule_def Let_def)
    next
      case False
      then have f: "(\<bar>ex - sx\<bar> = 1 \<and> \<bar>ey - sy\<bar> = 2) = False" by simp
      obtain b where b: "isEmpty bd sy (sx + (ex - sx) div 2) = Some (Inr b)"
        using emp[OF rs] by blast
      show ?thesis using Ma
        by (simp add: ex_bool_simps pieceRule_def Let_def f b)
    qed
  next
    case Sang
    show ?thesis
    proof (cases "\<bar>ex - sx\<bar> = 2 \<and> \<bar>ey - sy\<bar> = 3")
      case True
      then have d: "(ey - sy) div 3 = sgn (ey - sy)" by (simp add: div3_sgn)
      have r1: "0 \<le> sy + sgn (ey - sy)" "sy + sgn (ey - sy) < int (length bd)"
        using True rs re by (auto simp: sgn_if)
      have r2: "0 \<le> sy + sgn (ey - sy) * 2" "sy + sgn (ey - sy) * 2 < int (length bd)"
        using True rs re by (auto simp: sgn_if)
      obtain b1 where b1: "isEmpty bd (sy + sgn (ey - sy)) sx = Some (Inr b1)"
        using emp[OF r1] by blast
      obtain b2 where b2: "isEmpty bd (sy + sgn (ey - sy) * 2) (sx + (ex - sx) div 2) = Some (Inr b2)"
        using emp[OF r2] by blast
      show ?thesis using Sang True b1 b2
        by (cases b1) (simp_all add: ex_bool_simps pieceRule_def Let_def bindR_def d)
    next
      case n1: False
      show ?thesis
      proof (cases "\<bar>ex - sx\<bar> = 3 \<and> \<bar>ey - sy\<bar> = 2")
        case True
        then have d: "(ey - sy) div 2 = sgn (ey - sy)" by (simp add: div2_sgn)
        have r1: "0 \<le> sy + sgn (ey - sy)" "sy + sgn (ey - sy) < int (length bd)"
          using True rs re by (auto simp: sgn_if)
        obtain b1 where b1: "isEmpty bd sy (sx + (ex - sx) div 3) = Some (Inr b1)"
          using emp[OF rs] by blast
        obtain b2 where b2: "isEmpty bd (sy + sgn (ey - sy)) (sx + (ex - sx) div 3 * 2) = Some (Inr b2)"
          using emp[OF r1] by blast
        have g: "(\<bar>ex - sx\<bar> = 2 \<and> \<bar>ey - sy\<bar> = 3) = False" using n1 by simp
        show ?thesis using Sang True b1 b2
          by (cases b1) (simp_all add: ex_bool_simps pieceRule_def Let_def bindR_def d g)
      next
        case False
        then have f: "(\<bar>ex - sx\<bar> = 3 \<and> \<bar>ey - sy\<bar> = 2) = False" by simp
        have g: "(\<bar>ex - sx\<bar> = 2 \<and> \<bar>ey - sy\<bar> = 3) = False" using n1 by simp
        show ?thesis using Sang by (simp add: ex_bool_simps pieceRule_def Let_def f g)
      qed
    qed
  next
    case Po
    show ?thesis
    proof (cases "sx = ex \<or> sy = ey")
      case True
      then have c: "countObstacles bd (sy, sx) (ey, ex) = Some (Inr (piecesBetween bd (sy, sx) (ey, ex)))"
        by (intro cnt) blast
      show ?thesis using Po True
        by (simp add: ex_bool_simps pieceRule_def Let_def bindR_def c)
    next
      case nl: False
      show ?thesis
      proof (cases "inPalace sy sx (team pc) \<and> inPalace ey ex (team pc) \<and> \<bar>ex - sx\<bar> = \<bar>ey - sy\<bar>")
        case True
        then have c: "countObstacles bd (sy, sx) (ey, ex) = Some (Inr (piecesBetween bd (sy, sx) (ey, ex)))"
          by (intro cnt) blast
        show ?thesis using Po nl True
          by (simp add: ex_bool_simps pieceRule_def Let_def bindR_def c)
      next
        case False
        then have f: "(inPalace sy sx (team pc) \<and> inPalace ey ex (team pc) \<and> \<bar>ex - sx\<bar> = \<bar>ey - sy\<bar>) = False"
          by simp
        have g: "(sx = ex \<or> sy = ey) = False" using nl by simp
        show ?thesis using Po
          by (simp add: ex_bool_simps pieceRule_def Let_def f g)
      qed
    qed
  next
    case Sa
    then show ?thesis by (simp add: ex_bool_simps pieceRule_def Let_def)
  next
    case Jang
    then show ?thesis by (simp add: ex_bool_simps pieceRule_def Let_def)
  next
    case Jol
    then show ?thesis by (simp add: ex_bool_simps pieceRule_def Let_def)
  qed
qed

text \<open>
  Claim C4. Whenever both row coordinates index rows of the board, \<open>isValidMove\<close>
  returns a boolean: it raises no exception and its obstacle loop ends. The columns may be
  any integers.
\<close>

theorem isValidMove_total_on_rows:
  assumes rs: "0 \<le> sy" "sy < int (length bd)"
    and re: "0 \<le> ey" "ey < int (length bd)"
  shows "\<exists>b. isValidMove bd (sy, sx) (ey, ex) tn = Some (Inr b)"
proof (cases "sy = ey \<and> sx = ex")
  case True
  then show ?thesis by (auto simp add: isValidMove_def)
next
  case False
  then have ne: "sy \<noteq> ey \<or> sx \<noteq> ex" by blast
  obtain p where p: "cell bd sy sx = Inr p" using cell_row_ok rs by blast
  obtain q where q: "cell bd ey ex = Inr q" using cell_row_ok re by blast
  show ?thesis
  proof (cases p)
    case None
    then show ?thesis using False p by (auto simp add: isValidMove_def)
  next
    case (Some pc)
    obtain b where "pieceRule bd (sy, sx) (ey, ex) pc q = Some (Inr b)"
      using pieceRule_total[OF rs re ne] by blast
    then show ?thesis
      using False p q Some by (auto simp add: isValidMove_def)
  qed
qed

text \<open>
  The theorem at the opening position, for the horse move from (9,1) to (7,2).
\<close>

theorem isValidMove_total_on_rows_witness:
  "(0::int) \<le> 9 \<and> 9 < int (length (initBoard An An))
   \<and> (0::int) \<le> 7 \<and> 7 < int (length (initBoard An An))
   \<and> (\<exists>b. isValidMove (initBoard An An) (9, 1) (7, 2) R = Some (Inr b))"
proof -
  have l: "length (initBoard An An) = 10" by code_simp
  have a: "(0::int) \<le> 9" "9 < int (length (initBoard An An))"
    and b: "(0::int) \<le> 7" "7 < int (length (initBoard An An))"
    by (simp_all add: l)
  show ?thesis
    using isValidMove_total_on_rows[OF a b, of 1 2 R] a b by simp
qed

text \<open>
  Off the board the predicate is neither total nor always false: a source row of 10 raises
  a TypeError, and the chariot on (0,8) is allowed to move to column 9.
\<close>

theorem isValidMove_out_of_bounds_counterexample:
  "isValidMove (initBoard An An) (10, 0) (0, 0) B = Some (Inl TypeError)
   \<and> isValidMove (initBoard An An) (0, 8) (0, 9) B = Some (Inr True)"
  by code_simp

section \<open>Match state: move, pass and undo\<close>

lemma isValidMove_True_cells:
  assumes "isValidMove bd (sy, sx) (ey, ex) tn = Some (Inr True)"
  shows "(\<exists>pc. cell bd sy sx = Inr (Some pc)) \<and> (\<exists>tg. cell bd ey ex = Inr tg)"
  using assms
  by (auto simp: isValidMove_def split: if_splits sum.splits option.splits)

lemma setCell_ok:
  "0 \<le> r \<Longrightarrow> r < int (length bd) \<Longrightarrow> \<exists>nb. setCell bd r c v = Inr nb \<and> length nb = length bd"
  by (simp add: setCell_def)

lemma generateFen_ok: "10 \<le> length bd \<Longrightarrow> \<exists>fen. generateFen bd t = Inr fen"
  by (simp add: generateFen_def Let_def)

lemma executeMove_ok:
  assumes rs: "0 \<le> sr" "sr < int (length (board s))"
    and re: "0 \<le> er" "er < int (length (board s))"
    and len: "10 \<le> length (board s)"
  shows "\<exists>nb cmds. executeMove (sr, sc) (er, ec) s =
           Inr (s\<lparr>board := nb, selected := None, legalMoves := [],
                   history := history s @
                     [\<lparr>seq = length (history s) + 1, moveNotation = Coords sr sc er ec,
                       moveTurn = turn s, prevBoard = board s\<rparr>],
                   turn := flipTurn (turn s), sent := sent s @ cmds\<rparr>)
         \<and> length nb = length (board s)
         \<and> cmds = (if electronAPI s \<and> engineEnabled s
                    then searchCommands (projr (generateFen nb (flipTurn (turn s)))) (timeControl s) else [])"
proof -
  obtain pc where pc: "cell (board s) sr sc = Inr pc" using cell_row_ok[OF rs] by blast
  obtain nb1 where nb1: "setCell (board s) er ec pc = Inr nb1" "length nb1 = length (board s)"
    using setCell_ok[OF re] by blast
  have rs1: "0 \<le> sr" "sr < int (length nb1)" using rs nb1(2) by simp_all
  obtain nb2 where nb2: "setCell nb1 sr sc None = Inr nb2" "length nb2 = length nb1"
    using setCell_ok[OF rs1] by blast
  have "10 \<le> length nb2" using len nb1(2) nb2(2) by simp
  then obtain fen where fen: "generateFen nb2 (flipTurn (turn s)) = Inr fen"
    using generateFen_ok by blast
  show ?thesis
    apply (rule exI[of _ nb2])
    apply (rule exI[of _ "if electronAPI s \<and> engineEnabled s then searchCommands fen (timeControl s) else []"])
    using pc nb1 nb2 fen by (simp add: executeMove_def Let_def)
qed

text \<open>
  Claim C6. From a state whose board has its ten rows, a move that \<open>isValidMove\<close>
  accepts is carried out by \<open>executeMove\<close> without an exception, and \<open>undoMove\<close> then
  gives back the board, the side to move and the history as they were. \<open>undoMove\<close> on
  an empty history changes nothing, and \<open>undoMove\<close> after \<open>passTurn\<close> gives back the
  board, the side to move and the history as they were.
\<close>

theorem undo_reverses_move_and_pass:
  "(isValidMove (board s) (sr, sc) (er, ec) (turn s) = Some (Inr True) \<and> length (board s) = 10 \<longrightarrow>
      (\<exists>s'. executeMove (sr, sc) (er, ec) s = Inr s'
            \<and> board (undoMove s') = board s
            \<and> turn (undoMove s') = turn s
            \<and> history (undoMove s') = history s))
   \<and> (history s = [] \<longrightarrow> undoMove s = s)
   \<and> board (undoMove (passTurn s)) = board s
   \<and> turn (undoMove (passTurn s)) = turn s
   \<and> history (undoMove (passTurn s)) = history s"
proof (intro conjI impI)
  assume a: "isValidMove (board s) (sr, sc) (er, ec) (turn s) = Some (Inr True) \<and> length (board s) = 10"
  then obtain pc tg where c: "cell (board s) sr sc = Inr (Some pc)" "cell (board s) er ec = Inr tg"
    using isValidMove_True_cells by blast
  have rs: "0 \<le> sr" "sr < int (length (board s))" using cell_Inr_row[OF c(1)] by simp_all
  have re: "0 \<le> er" "er < int (length (board s))" using cell_Inr_row[OF c(2)] by simp_all
  have len: "10 \<le> length (board s)" using a by simp
  obtain nb cmds where e: "executeMove (sr, sc) (er, ec) s =
           Inr (s\<lparr>board := nb, selected := None, legalMoves := [],
                   history := history s @
                     [\<lparr>seq = length (history s) + 1, moveNotation = Coords sr sc er ec,
                       moveTurn = turn s, prevBoard = board s\<rparr>],
                   turn := flipTurn (turn s), sent := sent s @ cmds\<rparr>)"
    using executeMove_ok[OF rs re len] by blast
  show "\<exists>s'. executeMove (sr, sc) (er, ec) s = Inr s'
            \<and> board (undoMove s') = board s
            \<and> turn (undoMove s') = turn s
            \<and> history (undoMove s') = history s"
    unfolding e by (simp add: undoMove_def Let_def)
next
  assume "history s = []"
  then show "undoMove s = s" by (simp add: undoMove_def)
next
  show "board (undoMove (passTurn s)) = board s"
    by (simp add: undoMove_def passTurn_def Let_def)
next
  show "turn (undoMove (passTurn s)) = turn s"
    by (simp add: undoMove_def passTurn_def Let_def)
next
  show "history (undoMove (passTurn s)) = history s"
    by (simp add: undoMove_def passTurn_def Let_def)
qed

lemma startGame_initial:
  "startGame (initialState True) =
     \<lparr>board = initBoard An An, turn = B, gameStarted = True, redSetup = An, blueSetup = An,
      gameMode = PvP, selected = None, legalMoves = [], history = [], engineEnabled = False,
      timeControl = 6, isEngineThinking = False, electronAPI = True, sent = []\<rparr>"
  by (simp add: startGame_def initialState_def)

text \<open>
  The theorem at the opening position, for the soldier move from (3,0) to (4,0).
\<close>

theorem undo_reverses_move_and_pass_witness:
  "isValidMove (board (startGame (initialState True))) (3, 0) (4, 0) (turn (startGame (initialState True)))
     = Some (Inr True)
   \<and> length (board (startGame (initialState True))) = 10
   \<and> history (startGame (initialState True)) = []
   \<and> (\<exists>s'. executeMove (3, 0) (4, 0) (startGame (initialState True)) = Inr s'
            \<and> board (undoMove s') = board (startGame (initialState True))
            \<and> turn (undoMove s') = turn (startGame (initialState True))
            \<and> history (undoMove s') = history (startGame (initialState True)))
   \<and> undoMove (startGame (initialState True)) = startGame (initialState True)"
proof -
  have v: "isValidMove (initBoard An An) (3, 0) (4, 0) B = Some (Inr True)"
    by code_simp
  have l: "length (initBoard An An) = 10"
    by code_simp
  have h1: "isValidMove (board (startGame (initialState True))) (3, 0) (4, 0)
              (turn (startGame (initialState True))) = Some (Inr True)"
    by (simp add: startGame_initial v)
  have h2: "length (board (startGame (initialState True))) = 10"
    by (simp add: startGame_initial l)
  have h3: "history (startGame (initialState True)) = []"
    by (simp add: startGame_initial)
  show ?thesis
    using undo_reverses_move_and_pass[of "startGame (initialState True)" 3 0 4 0] h1 h2 h3
    by blast
qed

section \<open>Engine output: the move token\<close>

lemma colMap_Some: "colMap (Some ch) = (if isFile ch then Some (fileCol ch) else None)"
  by (auto simp: colMap_def isFile_def fileCol_def)

lemma parseInt_Some:
  "map_option (\<lambda>d. 9 - d) (parseInt (Some ch)) = (if isRank ch then Some (rankRow ch) else None)"
  by (auto simp: parseInt_def isRank_def rankRow_def)

lemma parseInt_None: "parseInt None = None"
  by (simp add: parseInt_def)

text \<open>
  Claim C5. The token is decoded from its first four characters: the decoding succeeds
  exactly when the token has at least four characters, the first and third are file
  letters a to i and the second and fourth are digits; the columns are the file letters'
  positions and the rows are 9 minus the digits. Characters after the fourth are not
  read. When the decoding fails, \<open>applyEngineMove\<close> applies no move and raises nothing: it
  only clears the in-flight flag.
\<close>

theorem decodeMove_reads_first_four:
  "decodeMove tok =
     (if 4 \<le> length tok \<and> isFile (tok ! 0) \<and> isRank (tok ! 1) \<and> isFile (tok ! 2) \<and> isRank (tok ! 3)
      then Some ((rankRow (tok ! 1), fileCol (tok ! 0)), (rankRow (tok ! 3), fileCol (tok ! 2)))
      else None)
   \<and> (decodeMove tok = None \<longrightarrow> applyEngineMove tok s = Inr (s\<lparr>isEngineThinking := False\<rparr>))"
proof
  show "decodeMove tok =
     (if 4 \<le> length tok \<and> isFile (tok ! 0) \<and> isRank (tok ! 1) \<and> isFile (tok ! 2) \<and> isRank (tok ! 3)
      then Some ((rankRow (tok ! 1), fileCol (tok ! 0)), (rankRow (tok ! 3), fileCol (tok ! 2)))
      else None)"
  proof (cases "4 \<le> length tok")
    case True
    then have l: "tok \<noteq> []" "Suc 0 < length tok" "2 < length tok" "3 < length tok"
      by auto
    show ?thesis using True
      by (simp add: decodeMove_def Let_def charAt_def l colMap_Some parseInt_Some)
  next
    case False
    then have "charAt tok 3 = None" by (simp add: charAt_def)
    then show ?thesis using False
      by (simp add: decodeMove_def Let_def parseInt_None split: option.splits)
  qed
next
  show "decodeMove tok = None \<longrightarrow> applyEngineMove tok s = Inr (s\<lparr>isEngineThinking := False\<rparr>)"
    by (simp add: applyEngineMove_def)
qed

text \<open>
  The theorem at the three-character token \<open>a0a\<close>, which fails, and at \<open>b0c2\<close>.
\<close>

theorem decodeMove_reads_first_four_witness:
  "decodeMove ''a0a'' = None
   \<and> applyEngineMove ''a0a'' (startGame (initialState True))
       = Inr ((startGame (initialState True))\<lparr>isEngineThinking := False\<rparr>)
   \<and> decodeMove ''b0c2'' = Some ((9, 1), (7, 2))"
proof -
  have n: "decodeMove ''a0a'' = None"
    using decodeMove_reads_first_four[of "''a0a''"] by simp
  have a: "applyEngineMove ''a0a'' (startGame (initialState True))
       = Inr ((startGame (initialState True))\<lparr>isEngineThinking := False\<rparr>)"
    using decodeMove_reads_first_four[of "''a0a''" "startGame (initialState True)"] n by blast
  have d: "decodeMove ''b0c2'' = Some ((9, 1), (7, 2))"
    using decodeMove_reads_first_four[of "''b0c2''"]
    by (simp add: isFile_def isRank_def rankRow_def fileCol_def)
  show ?thesis using n a d by simp
qed

text \<open>
  A token of five characters is decoded although its length is not four.
\<close>

theorem decodeMove_length_counterexample:
  "length ''a0a1q'' \<noteq> 4 \<and> decodeMove ''a0a1q'' = Some ((9, 0), (8, 0))"
  by code_simp

section \<open>Search requests and the in-flight flag\<close>

text \<open>
  Claim C7. \<open>checkEngineMove\<close> sends nothing while the in-flight flag is set, and when
  it does send a request the flag was clear before and is set afterwards. The analysis
  request of \<open>executeMove\<close> is outside this discipline: it leaves the flag as it is and,
  when the engine is enabled, sends its two commands whatever the flag says.
\<close>

theorem move_request_guarded_analysis_not:
  "(isEngineThinking s \<longrightarrow> checkEngineMove s = Inr s)
   \<and> (checkEngineMove s = Inr s' \<and> sent s' \<noteq> sent s \<longrightarrow> \<not> isEngineThinking s \<and> isEngineThinking s')
   \<and> (executeMove st en s = Inr s' \<longrightarrow>
        isEngineThinking s' = isEngineThinking s
        \<and> (electronAPI s \<and> engineEnabled s \<longrightarrow> length (sent s') = length (sent s) + 2))"
proof (intro conjI impI)
  assume "isEngineThinking s"
  then show "checkEngineMove s = Inr s" by (simp add: checkEngineMove_def)
next
  assume a: "checkEngineMove s = Inr s' \<and> sent s' \<noteq> sent s"
  then show "\<not> isEngineThinking s"
    by (auto simp: checkEngineMove_def)
  from a show "isEngineThinking s'"
    by (auto simp: checkEngineMove_def requestEngineMove_def Let_def
             split: if_splits sum.splits)
next
  assume e: "executeMove st en s = Inr s'"
  then show "isEngineThinking s' = isEngineThinking s"
    by (cases st; cases en)
       (auto simp: executeMove_def Let_def split: if_splits sum.splits)
next
  assume e: "executeMove st en s = Inr s'" and on: "electronAPI s \<and> engineEnabled s"
  then show "length (sent s') = length (sent s) + 2"
    by (cases st; cases en)
       (auto simp: executeMove_def Let_def searchCommands_def split: if_splits sum.splits)
qed

text \<open>
  The theorem at three states after a start: one with the flag set, one in engine-versus-engine
  mode with the flag clear, and one with the engine enabled and the flag set, in which the
  soldier move from (3,0) to (4,0) still sends two commands.
\<close>

theorem move_request_guarded_analysis_not_witness:
  "isEngineThinking ((startGame (initialState True))\<lparr>isEngineThinking := True\<rparr>)
   \<and> checkEngineMove ((startGame (initialState True))\<lparr>isEngineThinking := True\<rparr>)
       = Inr ((startGame (initialState True))\<lparr>isEngineThinking := True\<rparr>)
   \<and> checkEngineMove ((startGame (initialState True))\<lparr>engineEnabled := True, gameMode := CvC\<rparr>)
       = Inr (projr (checkEngineMove ((startGame (initialState True))\<lparr>engineEnabled := True, gameMode := CvC\<rparr>)))
   \<and> sent (projr (checkEngineMove ((startGame (initialState True))\<lparr>engineEnabled := True, gameMode := CvC\<rparr>)))
       \<noteq> sent ((startGame (initialState True))\<lparr>engineEnabled := True, gameMode := CvC\<rparr>)
   \<and> isEngineThinking (projr (checkEngineMove ((startGame (initialState True))\<lparr>engineEnabled := True, gameMode := CvC\<rparr>)))
   \<and> executeMove (3, 0) (4, 0) ((startGame (initialState True))\<lparr>engineEnabled := True, isEngineThinking := True\<rparr>)
       = Inr (projr (executeMove (3, 0) (4, 0) ((startGame (initialState True))\<lparr>engineEnabled := True, isEngineThinking := True\<rparr>)))
   \<and> length (sent (projr (executeMove (3, 0) (4, 0)
            ((startGame (initialState True))\<lparr>engineEnabled := True, isEngineThinking := True\<rparr>)))) = 2"
proof -
  let ?a = "(startGame (initialState True))\<lparr>isEngineThinking := True\<rparr>"
  let ?b = "(startGame (initialState True))\<lparr>engineEnabled := True, gameMode := CvC\<rparr>"
  let ?c = "(startGame (initialState True))\<lparr>engineEnabled := True, isEngineThinking := True\<rparr>"
  have a1: "isEngineThinking ?a" by simp
  have b1: "checkEngineMove ?b = Inr (projr (checkEngineMove ?b))" by code_simp
  have b2: "sent (projr (checkEngineMove ?b)) \<noteq> sent ?b" by code_simp
  have c1: "executeMove (3, 0) (4, 0) ?c = Inr (projr (executeMove (3, 0) (4, 0) ?c))" by code_simp
  have c2: "electronAPI ?c \<and> engineEnabled ?c" by (simp add: startGame_def initialState_def)
  have c3: "sent ?c = []" by (simp add: startGame_def initialState_def)
  have ra: "checkEngineMove ?a = Inr ?a"
    using move_request_guarded_analysis_not[of ?a] a1 by blast
  have rb: "isEngineThinking (projr (checkEngineMove ?b))"
    using move_request_guarded_analysis_not[of ?b "projr (checkEngineMove ?b)"] b1 b2 by blast
  have rc: "length (sent (projr (executeMove (3, 0) (4, 0) ?c))) = length (sent ?c) + 2"
    using move_request_guarded_analysis_not[of ?c "projr (executeMove (3, 0) (4, 0) ?c)" "(3, 0)" "(4, 0)"]
      c1 c2 by blast
  show ?thesis using a1 ra b1 b2 rb c1 rc c3 by simp
qed

text \<open>
  Human against engine, engine enabled: the user's soldier move sends the analysis request
  from \<open>executeMove\<close> and then the move request from the effect, with no best-move line
  in between.
\<close>

theorem two_requests_outstanding_counterexample:
  "outSent (run [SetGameMode PvC, StartGame, ToggleEngine, SquareClick 3 0, SquareClick 4 0]
              (initialState True))
   = Some [''position fen rnea1aenr/4k4/1c5c1/2p1p1p1p/p8/9/P1P1P1P1P/1C5C1/4K4/RNEA1AENR w - - 0 1'',
           ''go movetime 6000'',
           ''position fen rnea1aenr/4k4/1c5c1/2p1p1p1p/p8/9/P1P1P1P1P/1C5C1/4K4/RNEA1AENR w - - 0 1'',
           ''go movetime 6000'']"
  by code_simp

section \<open>Engine output: the callback of the first render\<close>

text \<open>
  With the current state as its view, the general \<open>executeMove\<close> is the one of the click
  handlers. With the view of the mount it has no row to read: the board of the first
  render is empty, so the first cell access raises the TypeError before any state is set.
  A best-move line therefore clears the in-flight flag and changes nothing else.
\<close>

lemma executeMoveFrom_self: "executeMoveFrom s start end' s = executeMove start end' s"
  by (simp add: executeMoveFrom_def executeMove_def)

lemma applyEngineMoveFrom_self: "applyEngineMoveFrom s moveStr s = applyEngineMove moveStr s"
  by (simp add: applyEngineMoveFrom_def applyEngineMove_def executeMoveFrom_self
           split: option.splits prod.splits)

lemma cell_no_rows: "cell [] r c = Inl TypeError"
  by (simp add: cell_def)

lemma board_mountView: "board (mountView v) = []"
  by (simp add: mountView_def initialState_def)

lemma executeMoveFrom_mountView: "executeMoveFrom (mountView v) start end' s = Inl TypeError"
  by (cases start; cases end')
     (simp add: executeMoveFrom_def Let_def board_mountView cell_no_rows)

lemma onEngineOutput_state:
  "fst (onEngineOutput out s) = (if startsWith out ''bestmove'' then s\<lparr>isEngineThinking := False\<rparr> else s)"
  by (simp add: onEngineOutput_def Let_def applyEngineMoveFrom_def executeMoveFrom_mountView
           split: option.splits prod.splits)

lemma onEngineOutput_keeps:
  "board (fst (onEngineOutput out s)) = board s"
  "turn (fst (onEngineOutput out s)) = turn s"
  "history (fst (onEngineOutput out s)) = history s"
  "gameStarted (fst (onEngineOutput out s)) = gameStarted s"
  "engineEnabled (fst (onEngineOutput out s)) = engineEnabled s"
  by (simp_all add: onEngineOutput_state)

lemma onEngineOutput_exception:
  "snd (onEngineOutput out s) =
     (if startsWith out ''bestmove'' \<and> 1 < length (splitOn CHR '' '' out)
         \<and> splitOn CHR '' '' out ! 1 \<noteq> [] \<and> splitOn CHR '' '' out ! 1 \<noteq> ''(none)''
         \<and> decodeMove (splitOn CHR '' '' out ! 1) \<noteq> None
      then Some TypeError else None)"
  by (auto simp add: onEngineOutput_def Let_def applyEngineMoveFrom_def executeMoveFrom_mountView
           split: option.splits prod.splits)

text \<open>
  Claim C2. When no request is pending, that is when the in-flight flag is clear, a
  best-move line leaves the whole state as it is, board, side to move and history
  included, and the effect does not run after it.
\<close>

theorem stray_bestmove_is_ignored:
  assumes "\<not> isEngineThinking s"
  shows "fst (onEngineOutput out s) = s \<and> step (EngineOutput out) s = Some (Inr s)"
proof -
  have e: "s\<lparr>isEngineThinking := False\<rparr> = s" using assms by simp
  have f: "fst (onEngineOutput out s) = s" by (simp add: onEngineOutput_state e)
  have "step (EngineOutput out) s = Some (Inr s)"
    by (simp add: step_def handle_def bindR_def f depsChanged_def)
  with f show ?thesis by simp
qed

text \<open>
  The theorem at the line \<open>bestmove a6a5\<close> in the state after a start, where nothing has
  been sent to the engine.
\<close>

theorem stray_bestmove_is_ignored_witness:
  "\<not> isEngineThinking (startGame (initialState True))
   \<and> fst (onEngineOutput ''bestmove a6a5'' (startGame (initialState True))) = startGame (initialState True)
   \<and> step (EngineOutput ''bestmove a6a5'') (startGame (initialState True))
       = Some (Inr (startGame (initialState True)))"
proof -
  have h: "\<not> isEngineThinking (startGame (initialState True))"
    by (simp add: startGame_def)
  from stray_bestmove_is_ignored[OF h, of "''bestmove a6a5''"] h show ?thesis by simp
qed

section \<open>Every applied move was validated\<close>

lemma checkEngineMove_keeps:
  assumes "checkEngineMove s = Inr s'"
  shows "board s' = board s \<and> turn s' = turn s \<and> history s' = history s \<and> gameStarted s' = gameStarted s"
  using assms
  by (auto simp: checkEngineMove_def requestEngineMove_def Let_def split: if_splits sum.splits)

lemma effect_keeps:
  assumes "effect s = Inr s'"
  shows "board s' = board s \<and> turn s' = turn s \<and> history s' = history s \<and> gameStarted s' = gameStarted s"
  using assms checkEngineMove_keeps[of s s']
  by (auto simp: effect_def split: if_splits)

lemma selectSquare_keeps:
  assumes "selectSquare r c s = Some (Inr m)"
  shows "board m = board s \<and> turn m = turn s \<and> history m = history s"
  using assms
  by (auto simp: selectSquare_def bindR_def split: option.splits sum.splits)

lemma handleSquareClick_mutation:
  assumes h: "handleSquareClick r c s = Some (Inr m)"
    and ch: "board m \<noteq> board s \<or> turn m \<noteq> turn s \<or> history m \<noteq> history s"
  shows "\<exists>sr sc. selected s = Some (sr, sc)
           \<and> isValidMove (board s) (sr, sc) (r, c) (turn s) = Some (Inr True)
           \<and> executeMove (sr, sc) (r, c) s = Inr m"
proof (cases "selected s")
  case None
  with h ch selectSquare_keeps[of r c s m] show ?thesis
    by (auto simp: handleSquareClick_def split: if_splits sum.splits option.splits)
next
  case (Some p)
  obtain sr sc where p: "p = (sr, sc)" by (cases p)
  from h ch selectSquare_keeps[of r c s m] Some p show ?thesis
    by (auto simp: handleSquareClick_def bindR_def split: if_splits sum.splits option.splits)
qed

lemma handleSquareClick_not_started:
  "\<not> gameStarted s \<Longrightarrow> handleSquareClick r c s = Some (Inr s)"
  by (simp add: handleSquareClick_def)

text \<open>
  Claim C1. Whenever a click on a square or a line of engine output changes the board,
  the side to move or the history, the input is a click on a square \<open>(r, c)\<close> with a square
  \<open>(sr, sc)\<close> selected, \<open>isValidMove\<close> has returned true for that pair on the current board
  and side, and the change is the one \<open>executeMove\<close> makes for that pair. In particular no
  line of engine output changes any of the three.
\<close>

theorem applied_moves_are_validated:
  assumes mv: "isMoveInput ev"
    and st: "step ev s = Some (Inr s')"
    and ch: "board s' \<noteq> board s \<or> turn s' \<noteq> turn s \<or> history s' \<noteq> history s"
  shows "\<exists>r c sr sc m. ev = SquareClick r c
           \<and> selected s = Some (sr, sc)
           \<and> isValidMove (board s) (sr, sc) (r, c) (turn s) = Some (Inr True)
           \<and> executeMove (sr, sc) (r, c) s = Inr m
           \<and> board s' = board m \<and> turn s' = turn m \<and> history s' = history m"
proof -
  from st obtain m where hm: "handle ev s = Some (Inr m)"
    and fin: "s' = m \<or> effect m = Inr s'"
    by (auto simp: step_def bindR_def split: option.splits sum.splits if_splits)
  have same: "board s' = board m \<and> turn s' = turn m \<and> history s' = history m"
    using fin effect_keeps[of m s'] by auto
  show ?thesis
  proof (cases ev)
    case (SquareClick r c)
    then have h: "handleSquareClick r c s = Some (Inr m)" using hm by (simp add: handle_def)
    have "board m \<noteq> board s \<or> turn m \<noteq> turn s \<or> history m \<noteq> history s"
      using ch same by auto
    from handleSquareClick_mutation[OF h this] same SquareClick show ?thesis by blast
  next
    case (EngineOutput out)
    then have "m = fst (onEngineOutput out s)" using hm by (simp add: handle_def)
    then have "board m = board s \<and> turn m = turn s \<and> history m = history s"
      by (simp add: onEngineOutput_keeps)
    with ch same show ?thesis by auto
  qed (use mv in \<open>simp_all add: isMoveInput_def\<close>)
qed

text \<open>
  The theorem at the opening position: with the soldier on (3,0) selected, the click on
  (4,0) moves it.
\<close>

theorem applied_moves_are_validated_witness:
  "isMoveInput (SquareClick 4 0)
   \<and> step (SquareClick 4 0) (projr (the (run [StartGame, SquareClick 3 0] (initialState True))))
       = Some (Inr (projr (the (run [StartGame, SquareClick 3 0, SquareClick 4 0] (initialState True)))))
   \<and> board (projr (the (run [StartGame, SquareClick 3 0, SquareClick 4 0] (initialState True))))
       \<noteq> board (projr (the (run [StartGame, SquareClick 3 0] (initialState True))))
   \<and> selected (projr (the (run [StartGame, SquareClick 3 0] (initialState True)))) = Some (3, 0)
   \<and> isValidMove (board (projr (the (run [StartGame, SquareClick 3 0] (initialState True))))) (3, 0) (4, 0)
         (turn (projr (the (run [StartGame, SquareClick 3 0] (initialState True))))) = Some (Inr True)"
proof -
  let ?s = "projr (the (run [StartGame, SquareClick 3 0] (initialState True)))"
  let ?t = "projr (the (run [StartGame, SquareClick 3 0, SquareClick 4 0] (initialState True)))"
  have h1: "isMoveInput (SquareClick 4 0)" by (simp add: isMoveInput_def)
  have h2: "step (SquareClick 4 0) ?s = Some (Inr ?t)" by code_simp
  have h3: "board ?t \<noteq> board ?s" by code_simp
  have sel: "selected ?s = Some (3, 0)" by code_simp
  from applied_moves_are_validated[OF h1 h2] h3
  obtain r c sr sc where "SquareClick 4 0 = SquareClick r c" "selected ?s = Some (sr, sc)"
    "isValidMove (board ?s) (sr, sc) (r, c) (turn ?s) = Some (Inr True)"
    by blast
  with sel have "isValidMove (board ?s) (3, 0) (4, 0) (turn ?s) = Some (Inr True)" by simp
  with h1 h2 h3 sel show ?thesis by blast
qed

section \<open>No move after a resignation\<close>

lemma step_move_input_not_started:
  assumes ns: "\<not> gameStarted s" and mv: "isMoveInput ev"
  shows "\<exists>s'. step ev s = Some (Inr s') \<and> board s' = board s \<and> turn s' = turn s
              \<and> history s' = history s \<and> \<not> gameStarted s'"
proof (cases ev)
  case (SquareClick r c)
  then show ?thesis using ns
    by (simp add: step_def handle_def bindR_def handleSquareClick_not_started depsChanged_def)
next
  case (EngineOutput out)
  then show ?thesis using ns
    by (simp add: step_def handle_def bindR_def depsChanged_def onEngineOutput_keeps)
qed (use mv in \<open>simp_all add: isMoveInput_def\<close>)

lemma run_move_inputs_not_started:
  assumes "\<not> gameStarted s" and "\<forall>ev\<in>set evs. isMoveInput ev"
  shows "\<exists>s'. run evs s = Some (Inr s') \<and> board s' = board s \<and> turn s' = turn s
              \<and> history s' = history s \<and> \<not> gameStarted s'"
  using assms
proof (induction evs arbitrary: s)
  case Nil
  then show ?case by simp
next
  case (Cons ev evs)
  then obtain m where m: "step ev s = Some (Inr m)" "board m = board s" "turn m = turn s"
      "history m = history s" "\<not> gameStarted m"
    using step_move_input_not_started[of s ev] by auto
  from Cons.IH[of m] m(5) Cons.prems(2)
  obtain s' where "run evs m = Some (Inr s')" "board s' = board m" "turn s' = turn m"
      "history s' = history m" "\<not> gameStarted s'"
    by auto
  with m show ?case by (simp add: bindR_def)
qed

text \<open>
  Claim C9. After \<open>resign\<close>, any sequence of clicks on squares and lines of engine output
  runs without an exception of the component and leaves the board, the side to move and
  the history of the resigned game as they were, with the game still not started.
\<close>

theorem no_move_accepted_after_resign:
  assumes "\<forall>ev\<in>set evs. isMoveInput ev"
  shows "\<exists>s'. run evs (resign s) = Some (Inr s') \<and> board s' = board s \<and> turn s' = turn s
              \<and> history s' = history s \<and> \<not> gameStarted s'"
proof -
  have "\<not> gameStarted (resign s)" by (simp add: resign_def)
  from run_move_inputs_not_started[OF this assms] show ?thesis
    by (simp add: resign_def)
qed

text \<open>
  The theorem at a resignation just after a start, followed by a click on the soldier and
  the late line \<open>bestmove a6a5\<close>.
\<close>

theorem no_move_accepted_after_resign_witness:
  "isMoveInput (SquareClick 3 0) \<and> isMoveInput (EngineOutput ''bestmove a6a5'')
   \<and> (\<exists>s'. run [SquareClick 3 0, EngineOutput ''bestmove a6a5''] (resign (startGame (initialState True)))
             = Some (Inr s')
          \<and> board s' = board (startGame (initialState True))
          \<and> turn s' = turn (startGame (initialState True))
          \<and> history s' = history (startGame (initialState True))
          \<and> \<not> gameStarted s')"
proof -
  have h: "\<forall>ev\<in>set [SquareClick 3 0, EngineOutput ''bestmove a6a5'']. isMoveInput ev"
    by (simp add: isMoveInput_def)
  have m: "isMoveInput (SquareClick 3 0) \<and> isMoveInput (EngineOutput ''bestmove a6a5'')"
    by (simp add: isMoveInput_def)
  from no_move_accepted_after_resign[OF h, of "startGame (initialState True)"] m
  show ?thesis by blast
qed

end
